theory Spec2Isabelle
  imports Complex_Main
begin

section \<open>The episode visualizer of lerobot/scripts/visualize_tri_dataset.py\<close>

text \<open>
  The script loads the two archives of an episode and replays them, call by call, into
  the rerun sink. The embedding keeps the calls the script makes to its collaborators:
  the sink (its time axes and the records it receives), and every other call with an
  effect (logging, sink initialisation, serving, archive loads, directory creation,
  printing, sleeping) as an event of a trace, in the order of the source.
\<close>

subsection \<open>Strings: decimal rendering and the substring test\<close>

text \<open>The f-string rendering of a non-negative integer (\<^verbatim>\<open>f"{dim_idx}"\<close>).\<close>

definition digit_char :: "nat \<Rightarrow> char" where
  "digit_char n = ''0123456789'' ! (n mod 10)"

fun str_nat :: "nat \<Rightarrow> string" where
  "str_nat n = (if n < 10 then [digit_char n] else str_nat (n div 10) @ [digit_char n])"

declare str_nat.simps [simp del]

text \<open>The rendering of a Python int (\<^verbatim>\<open>f"episode_{episode_index}"\<close>).\<close>

definition str_int :: "int \<Rightarrow> string" where
  "str_int i = (if i < 0 then ''-'' @ str_nat (nat (- i)) else str_nat (nat i))"

text \<open>Python's \<^verbatim>\<open>sub in s\<close> on strings: \<open>sub\<close> occurs in \<open>s\<close> as a contiguous run.\<close>

definition starts_with :: "string \<Rightarrow> string \<Rightarrow> bool" where
  "starts_with sub s = (take (length sub) s = sub)"

fun str_in :: "string \<Rightarrow> string \<Rightarrow> bool" where
  "str_in sub [] = starts_with sub []"
| "str_in sub (c # s) = (starts_with sub (c # s) \<or> str_in sub s)"

subsection \<open>Floats: IEEE 754 binary64 with round to nearest, ties to even\<close>

text \<open>
  A Python float is a double. A finite double is modelled by the rational it denotes; an
  operation is the exact operation followed by \<open>round_to_double\<close>, the rounding of IEEE
  754 (round to nearest, ties to even) to 53 significant bits, with the fixed spacing of
  the subnormal range below \<open>2 powi (- 1022)\<close>. Overflow to infinity is not modelled: the
  only arithmetic of the script is the running total of the timestamps.

  \<open>bits n\<close> is the number of binary digits of a positive integer, and \<open>floor_log2 x\<close> the
  exponent \<open>e\<close> with \<open>2 powi e \<le> x < 2 powi (e + 1)\<close> of a positive rational.
\<close>

function bits :: "int \<Rightarrow> int" where
  "bits n = (if n \<le> 0 then 0 else 1 + bits (n div 2))"
  by pat_completeness auto
termination
  by (relation "measure nat") auto

declare bits.simps [simp del]

definition floor_log2 :: "rat \<Rightarrow> int" where
  "floor_log2 x =
     (let (p, q) = quotient_of x; k = bits p - bits q
      in if 2 powi k \<le> x then k else k - 1)"

definition round_half_even :: "rat \<Rightarrow> int" where
  "round_half_even m =
     (let f = \<lfloor>m\<rfloor>; r = m - of_int f
      in if r < 1 / 2 then f else if 1 / 2 < r then f + 1 else if even f then f else f + 1)"

definition round_to_double :: "rat \<Rightarrow> rat" where
  "round_to_double x =
     (if x = 0 then 0
      else let ulp = 2 powi (max (floor_log2 \<bar>x\<bar>) (- 1022) - 52)
           in sgn x * of_int (round_half_even (\<bar>x\<bar> / ulp)) * ulp)"

text \<open>The addition of two doubles (\<^verbatim>\<open>t + dt\<close>).\<close>

definition fadd :: "rat \<Rightarrow> rat \<Rightarrow> rat" where
  "fadd a b = round_to_double (a + b)"

subsection \<open>Arrays, archives and paths\<close>

text \<open>
  A numpy array is modelled by its nesting: a number (a 0-d array, or an element reached
  by iterating a 1-d array) or the sequence of its sub-arrays along axis 0. An array of
  shape T by D is an \<open>Arr\<close> of T arrays, each an \<open>Arr\<close> of D numbers. An empty
  \<open>Arr\<close> does not record the extents of its further axes.
\<close>

datatype ndarray = Num real | Arr "ndarray list"

datatype error =
    AssertionError string
  | ValueError string
  | FileNotFoundError "string list"
  | KeyError string
  | TypeError
  | IndexError
  | NameError string

text \<open>Iterating an array (\<^verbatim>\<open>enumerate(a)\<close>): a 0-d array is not iterable.\<close>

fun iter :: "ndarray \<Rightarrow> error + ndarray list" where
  "iter (Num v) = Inl TypeError"
| "iter (Arr xs) = Inr xs"

text \<open>The slice \<^verbatim>\<open>xs[::2]\<close>: the elements at the even positions.\<close>

fun every_second :: "'a list \<Rightarrow> 'a list" where
  "every_second [] = []"
| "every_second [x] = [x]"
| "every_second (x # y # xs) = x # every_second xs"

text \<open>
  The slice \<^verbatim>\<open>image[::2, ::2]\<close>: every second sub-array along axis 0, and in each of
  them every second sub-array along axis 1. An array with fewer than two axes has too
  many indices (IndexError).
\<close>

fun slice_axis :: "ndarray \<Rightarrow> error + ndarray" where
  "slice_axis (Num v) = Inl IndexError"
| "slice_axis (Arr xs) = Inr (Arr (every_second xs))"

fun slice_each :: "ndarray list \<Rightarrow> error + ndarray list" where
  "slice_each [] = Inr []"
| "slice_each (r # rs) =
     (case slice_axis r of
        Inl e \<Rightarrow> Inl e
      | Inr r' \<Rightarrow> (case slice_each rs of Inl e \<Rightarrow> Inl e | Inr rs' \<Rightarrow> Inr (r' # rs')))"

fun slice2 :: "ndarray \<Rightarrow> error + ndarray" where
  "slice2 (Num v) = Inl IndexError"
| "slice2 (Arr rows) =
     (case slice_each rows of
        Inl e \<Rightarrow> Inl e
      | Inr rows' \<Rightarrow> Inr (Arr (every_second rows')))"

text \<open>
  The shape of an array, for stating what an archive holds: \<open>has_shape [T, D] a\<close> says
  that \<open>a\<close> is T by D. \<open>elems a ! i\<close> is the sub-array \<^verbatim>\<open>a[i]\<close>.
\<close>

fun has_shape :: "nat list \<Rightarrow> ndarray \<Rightarrow> bool" where
  "has_shape [] (Num v) = True"
| "has_shape (n # ns) (Arr xs) = (length xs = n \<and> list_all (has_shape ns) xs)"
| "has_shape [] (Arr xs) = False"
| "has_shape (n # ns) (Num v) = False"

fun elems :: "ndarray \<Rightarrow> ndarray list" where
  "elems (Num v) = []"
| "elems (Arr xs) = xs"

text \<open>A path is the list of its parts; \<^verbatim>\<open>p / name\<close> appends a part.\<close>

type_synonym path = "string list"

text \<open>An archive (.npz) is the sequence of its named arrays, in the order of \<^verbatim>\<open>items()\<close>.\<close>

type_synonym npz = "(string \<times> ndarray) list"

subsection \<open>The sink and the trace of effects\<close>

datatype timeval = Seq nat | Secs rat

datatype payload = RrScalar ndarray | RrImage ndarray

text \<open>A record received by the sink: its path, its payload and the time axes at the call.\<close>

record entry =
  e_path :: string
  e_payload :: payload
  e_times :: "string \<Rightarrow> timeval option"

datatype event =
    LoggingInfo string
  | RrInit string bool
  | GcCollect
  | RrServe bool int int
  | NpLoad path
  | Tqdm string
  | Mkdir path
  | RrSave path
  | Print string
  | TimeSleep nat

record world =
  timelines :: "string \<Rightarrow> timeval option"
  logged :: "entry list"
  events :: "event list"

definition set_time_sequence :: "string \<Rightarrow> nat \<Rightarrow> world \<Rightarrow> world" where
  "set_time_sequence name i w = w\<lparr>timelines := (timelines w)(name \<mapsto> Seq i)\<rparr>"

definition set_time_seconds :: "string \<Rightarrow> rat \<Rightarrow> world \<Rightarrow> world" where
  "set_time_seconds name t w = w\<lparr>timelines := (timelines w)(name \<mapsto> Secs t)\<rparr>"

definition rr_log :: "string \<Rightarrow> payload \<Rightarrow> world \<Rightarrow> world" where
  "rr_log p x w =
     w\<lparr>logged := logged w @ [\<lparr>e_path = p, e_payload = x, e_times = timelines w\<rparr>]\<rparr>"

definition emit :: "event \<Rightarrow> world \<Rightarrow> world" where
  "emit ev w = w\<lparr>events := events w @ [ev]\<rparr>"

subsection \<open>The action stream (lines 114 to 121)\<close>

text \<open>
  The literal \<^verbatim>\<open>0.1\<close> is the double nearest to one tenth, and \<^verbatim>\<open>t += dt\<close> is the addition
  of doubles: the running total is rounded at every frame.
\<close>

definition dt :: rat where
  "dt = round_to_double (1 / 10)"

text \<open>
  The inner loop \<^verbatim>\<open>for dim_idx, val in enumerate(...): rr.log(f"{key}/{dim_idx}", rr.Scalar(val))\<close>,
  shared by the action stream (key \<^verbatim>\<open>action\<close>) and the robot channels.
\<close>

fun log_scalars :: "string \<Rightarrow> nat \<Rightarrow> ndarray list \<Rightarrow> world \<Rightarrow> world" where
  "log_scalars key dim_idx [] w = w"
| "log_scalars key dim_idx (val # vals) w =
     log_scalars key (Suc dim_idx) vals
       (rr_log (key @ ''/'' @ str_nat dim_idx) (RrScalar val) w)"

fun action_loop :: "nat \<Rightarrow> rat \<Rightarrow> ndarray list \<Rightarrow> world \<Rightarrow> (error + unit) \<times> world" where
  "action_loop i t [] w = (Inr (), w)"
| "action_loop i t (action # rest) w =
     (let w1 = set_time_sequence ''frame_index'' i w;
          w2 = set_time_seconds ''timestamp'' t w1
      in case iter action of
           Inl e \<Rightarrow> (Inl e, w2)
         | Inr vals \<Rightarrow> action_loop (Suc i) (fadd t dt) rest (log_scalars ''action'' 0 vals w2))"

definition log_actions :: "npz \<Rightarrow> world \<Rightarrow> (error + unit) \<times> world" where
  "log_actions actions w =
     (case map_of actions ''actions'' of
        None \<Rightarrow> (Inl (KeyError ''actions''), w)
      | Some a \<Rightarrow>
          (case iter a of
             Inl e \<Rightarrow> (Inl e, w)
           | Inr frames \<Rightarrow> action_loop 0 0 frames w))"

subsection \<open>The observation channels (lines 123 to 138)\<close>

fun robot_loop :: "string \<Rightarrow> nat \<Rightarrow> ndarray list \<Rightarrow> world \<Rightarrow> (error + unit) \<times> world" where
  "robot_loop key i [] w = (Inr (), w)"
| "robot_loop key i (robot_value # rest) w =
     (let w1 = set_time_sequence ''frame_index'' i w
      in case iter robot_value of
           Inl e \<Rightarrow> (Inl e, w1)
         | Inr vals \<Rightarrow> robot_loop key (Suc i) rest (log_scalars key 0 vals w1))"

fun image_loop :: "string \<Rightarrow> nat \<Rightarrow> ndarray list \<Rightarrow> world \<Rightarrow> (error + unit) \<times> world" where
  "image_loop key i [] w = (Inr (), w)"
| "image_loop key i (img # rest) w =
     (let w1 = set_time_sequence ''frame_index'' i w
      in case slice2 img of
           Inl e \<Rightarrow> (Inl e, w1)
         | Inr small \<Rightarrow> image_loop key (Suc i) rest (rr_log key (RrImage small) w1))"

text \<open>
  The body of \<^verbatim>\<open>for key, value in observations.items()\<close>: the dispatch on the name of
  the channel, in the order of the source. The progress bar of \<^verbatim>\<open>tqdm\<close> is an event.
\<close>

definition log_channel :: "string \<Rightarrow> ndarray \<Rightarrow> world \<Rightarrow> (error + unit) \<times> world" where
  "log_channel key val w =
     (if str_in ''robot_'' key then
        (case iter val of
           Inl e \<Rightarrow> (Inl e, w)
         | Inr frames \<Rightarrow> robot_loop key 0 frames w)
      else if str_in ''_depth'' key then (Inr (), w)
      else
        (case iter val of
           Inl e \<Rightarrow> (Inl e, emit (Tqdm key) w)
         | Inr frames \<Rightarrow> image_loop key 0 frames (emit (Tqdm key) w)))"

fun log_observations :: "npz \<Rightarrow> world \<Rightarrow> (error + unit) \<times> world" where
  "log_observations [] w = (Inr (), w)"
| "log_observations ((key, val) # rest) w =
     (case log_channel key val w of
        (Inl e, w') \<Rightarrow> (Inl e, w')
      | (Inr u, w') \<Rightarrow> log_observations rest w')"

subsection \<open>The whole of \<^verbatim>\<open>visualize_dataset\<close> (lines 78 to 156)\<close>

text \<open>
  The environment of a call: the archives on disk, and when the interrupt (Ctrl-C) of the
  serving loop arrives, as the number of sleeps completed before it; \<open>None\<close> when it
  never arrives.
\<close>

record env =
  files :: "path \<Rightarrow> npz option"
  interrupt :: "nat option"

datatype outcome = Returned "path option" | Raised error | Blocked

definition np_load :: "env \<Rightarrow> path \<Rightarrow> world \<Rightarrow> (error + npz) \<times> world" where
  "np_load ev p w =
     (case files ev p of
        None \<Rightarrow> (Inl (FileNotFoundError p), emit (NpLoad p) w)
      | Some a \<Rightarrow> (Inr a, emit (NpLoad p) w))"

definition processed_dir :: "path \<Rightarrow> int \<Rightarrow> path" where
  "processed_dir p episode_index =
     p @ [''diffusion_spartan'', ''episode_'' @ str_int episode_index, ''processed'']"

text \<open>Lines 110 to 138: both archives, loaded and replayed.\<close>

definition stream :: "env \<Rightarrow> path \<Rightarrow> int \<Rightarrow> world \<Rightarrow> (error + unit) \<times> world" where
  "stream ev p episode_index w =
     (case np_load ev (processed_dir p episode_index @ [''actions.npz''])
             (emit (LoggingInfo ''Loading actions.'') w) of
        (Inl e, w1) \<Rightarrow> (Inl e, w1)
      | (Inr actions, w1) \<Rightarrow>
          (case log_actions actions w1 of
             (Inl e, w2) \<Rightarrow> (Inl e, w2)
           | (Inr u, w2) \<Rightarrow>
               (case np_load ev (processed_dir p episode_index @ [''observations.npz'']) w2 of
                  (Inl e, w3) \<Rightarrow> (Inl e, w3)
                | (Inr observations, w3) \<Rightarrow> log_observations observations w3)))"

text \<open>
  The serving loop \<^verbatim>\<open>while True: time.sleep(1)\<close> of lines 152 to 156: it ends only when the
  interrupt arrives.
\<close>

fun sleeps :: "nat \<Rightarrow> world \<Rightarrow> world" where
  "sleeps 0 w = w"
| "sleeps (Suc n) w = sleeps n (emit (TimeSleep 1) w)"

text \<open>
  Lines 140 to 156. In the saving branch the name \<^verbatim>\<open>repo_id\<close> of line 144 is no parameter,
  no local variable, no name of the module and no builtin: reading it raises NameError,
  after the directory of line 143 is made, and lines 145 to 147 are never reached.
\<close>

definition finalize :: "env \<Rightarrow> int \<Rightarrow> string \<Rightarrow> bool \<Rightarrow> path option \<Rightarrow> world \<Rightarrow> outcome \<times> world" where
  "finalize ev episode_index mode save output_dir w =
     (if mode = ''local'' \<and> save then
        (case output_dir of
           None \<Rightarrow> (Raised TypeError, w)
         | Some d \<Rightarrow> (Raised (NameError ''repo_id''), emit (Mkdir d) w))
      else if mode = ''distant'' then
        (let w1 = emit (Print ''Data sent; press Ctrl-C to terminate the websocket connection.'') w
         in case interrupt ev of
              None \<Rightarrow> (Blocked, w1)
            | Some n \<Rightarrow> (Returned None, emit (Print ''Ctrl-C received. Exiting.'') (sleeps n w1)))
      else (Returned None, w))"

definition output_dir_message :: string where
  "output_dir_message =
     ''Set an output directory where to write .rrd files with `--output-dir path/to/directory`.''"

definition visualize_dataset ::
  "env \<Rightarrow> path \<Rightarrow> int \<Rightarrow> string \<Rightarrow> int \<Rightarrow> int \<Rightarrow> bool \<Rightarrow> path option \<Rightarrow> world \<Rightarrow> outcome \<times> world" where
  "visualize_dataset ev p episode_index mode web_port ws_port save output_dir w =
     (if save \<and> output_dir = None then (Raised (AssertionError output_dir_message), w)
      else
        (let w1 = emit (LoggingInfo ''Starting Rerun'') w in
         if mode \<notin> set [''local'', ''distant''] then (Raised (ValueError mode), w1)
         else
           (let spawn_local_viewer = (mode = ''local'' \<and> \<not> save);
                w2 = emit (RrInit (''episode_'' @ str_int episode_index) spawn_local_viewer) w1;
                w3 = emit GcCollect w2;
                w4 = (if mode = ''distant'' then emit (RrServe False web_port ws_port) w3 else w3);
                w5 = emit (LoggingInfo ''Logging to Rerun'') w4
            in case stream ev p episode_index w5 of
                 (Inl e, w6) \<Rightarrow> (Raised e, w6)
               | (Inr u, w6) \<Rightarrow> finalize ev episode_index mode save output_dir w6)))"

subsection \<open>Notions used in the statements\<close>

text \<open>The world before a call: no time axis set, nothing logged, no effect yet.\<close>

definition empty_world :: world where
  "empty_world = \<lparr>timelines = Map.empty, logged = [], events = []\<rparr>"

text \<open>
  The running total of the timestamps in the words of the specification: it starts at 0
  and is incremented by 0.1 per frame, in the arithmetic of doubles.
\<close>

fun running_total :: "nat \<Rightarrow> rat" where
  "running_total 0 = 0"
| "running_total (Suc i) = fadd (running_total i) dt"

text \<open>
  The downsampled image in the words of the specification: of shape ceil(H/2) by
  ceil(W/2), its element (a, b) is the element (2a, 2b) of the frame, so that every
  second row and every second column is retained, from index 0.
\<close>

definition spec_downsample :: "nat \<Rightarrow> nat \<Rightarrow> ndarray \<Rightarrow> ndarray" where
  "spec_downsample H W img =
     Arr (map (\<lambda>a. Arr (map (\<lambda>b. elems (elems img ! (2 * a)) ! (2 * b)) [0..<nat \<lceil>real W / 2\<rceil>]))
            [0..<nat \<lceil>real H / 2\<rceil>])"

text \<open>An event that spawns the interactive viewer: the sink initialised with \<^verbatim>\<open>spawn=True\<close>.\<close>

fun spawns_viewer :: "event \<Rightarrow> bool" where
  "spawns_viewer (RrInit name spawn) = spawn"
| "spawns_viewer ev = False"

text \<open>Every array of the list is iterable.\<close>

definition all_arr :: "ndarray list \<Rightarrow> bool" where
  "all_arr frames = list_all (\<lambda>f. \<exists>xs. f = Arr xs) frames"

text \<open>
  From \<open>w\<close> to \<open>w'\<close> the time axis \<open>name\<close> keeps its value, the records of \<open>w\<close> stay,
  and every record added carries the value the axis has in \<open>w\<close>.
\<close>

definition keeps :: "string \<Rightarrow> world \<Rightarrow> world \<Rightarrow> bool" where
  "keeps name w w' =
     (timelines w' name = timelines w name \<and>
      (\<exists>new. logged w' = logged w @ new \<and> list_all (\<lambda>e. e_times e name = timelines w name) new))"

text \<open>
  An episode on disk, for the concrete runs: the root \<^verbatim>\<open>/data/ep\<close>, episode 3, an actions
  array of 5 frames by 2 dimensions and an observations archive with no channel.
\<close>

definition example_actions :: ndarray where
  "example_actions =
     Arr [Arr [Num 0, Num 1], Arr [Num 2, Num 3], Arr [Num 4, Num 5], Arr [Num 6, Num 7],
          Arr [Num 8, Num 9]]"

definition example_env :: env where
  "example_env =
     \<lparr>files =
        [[''data'', ''ep'', ''diffusion_spartan'', ''episode_3'', ''processed'', ''actions.npz'']
           \<mapsto> [(''actions'', example_actions)],
         [''data'', ''ep'', ''diffusion_spartan'', ''episode_3'', ''processed'', ''observations.npz'']
           \<mapsto> []],
      interrupt = None\<rparr>"

text \<open>
  The world in which the loop over the observations (line 125) starts, in a call that
  reaches it: the effects of lines 92 to 123 on the world of the call, in the order of the
  source, with the actions streamed.
\<close>

definition observations_start ::
  "path \<Rightarrow> int \<Rightarrow> string \<Rightarrow> int \<Rightarrow> int \<Rightarrow> bool \<Rightarrow> npz \<Rightarrow> world \<Rightarrow> world" where
  "observations_start p n mode web_port ws_port save actions w =
     emit (NpLoad (processed_dir p n @ [''observations.npz'']))
       (snd (log_actions actions
         (emit (NpLoad (processed_dir p n @ [''actions.npz'']))
           (emit (LoggingInfo ''Loading actions.'')
             (emit (LoggingInfo ''Logging to Rerun'')
               ((if mode = ''distant'' then emit (RrServe False web_port ws_port) else id)
                 (emit GcCollect
                   (emit (RrInit (''episode_'' @ str_int n) (mode = ''local'' \<and> \<not> save))
                     (emit (LoggingInfo ''Starting Rerun'') w)))))))))"

text \<open>
  The records of a robot channel of T frames by D dimensions in the words of the
  specification: one scalar record per frame i and dimension d, in that order, at the
  path \<^verbatim>\<open><name>/<d>\<close>, with the value at (i, d) and the frame-index axis at i; the other
  axes are as they were when the channel started.
\<close>

definition scalar_records ::
  "string \<Rightarrow> nat \<Rightarrow> nat \<Rightarrow> ndarray \<Rightarrow> (string \<Rightarrow> timeval option) \<Rightarrow> entry list" where
  "scalar_records key T D val axes =
     concat (map (\<lambda>i. map (\<lambda>d. \<lparr>e_path = key @ ''/'' @ str_nat d,
          e_payload = RrScalar (elems (elems val ! i) ! d),
          e_times = axes(''frame_index'' \<mapsto> Seq i)\<rparr>) [0..<D]) [0..<T])"

text \<open>
  The records of an image channel of T frames: one image record per frame i at the path
  \<^verbatim>\<open><name>\<close>, the downsampled frame, with the frame-index axis at i.
\<close>

definition image_records ::
  "string \<Rightarrow> nat \<Rightarrow> nat \<Rightarrow> nat \<Rightarrow> ndarray \<Rightarrow> (string \<Rightarrow> timeval option) \<Rightarrow> entry list" where
  "image_records key T H W val axes =
     map (\<lambda>i. \<lparr>e_path = key, e_payload = RrImage (spec_downsample H W (elems val ! i)),
          e_times = axes(''frame_index'' \<mapsto> Seq i)\<rparr>) [0..<T]"

text \<open>
  The same episode with four observation channels: a camera with one 3 by 3 frame of one
  colour channel, a robot channel of 2 frames by 2 dimensions, a channel whose name has both
  \<^verbatim>\<open>robot_\<close> and \<^verbatim>\<open>_depth\<close>, and a depth channel.
\<close>

definition example_camera :: ndarray where
  "example_camera =
     Arr [Arr [Arr [Arr [Num 1], Arr [Num 2], Arr [Num 3]],
               Arr [Arr [Num 4], Arr [Num 5], Arr [Num 6]],
               Arr [Arr [Num 7], Arr [Num 8], Arr [Num 9]]]]"

definition example_robot :: ndarray where
  "example_robot = Arr [Arr [Num 5, Num 6], Arr [Num 7, Num 8]]"

definition example_observations :: npz where
  "example_observations =
     [(''camera_front'', example_camera),
      (''robot_state'', example_robot),
      (''robot_arm_depth'', Arr [Arr [Num 3, Num 4]]),
      (''camera_front_depth'', Arr [Arr [Arr [Num 1]]])]"

definition example_episode :: env where
  "example_episode =
     \<lparr>files =
        [[''data'', ''ep'', ''diffusion_spartan'', ''episode_3'', ''processed'', ''actions.npz'']
           \<mapsto> [(''actions'', example_actions)],
         [''data'', ''ep'', ''diffusion_spartan'', ''episode_3'', ''processed'', ''observations.npz'']
           \<mapsto> example_observations],
      interrupt = None\<rparr>"

section \<open>Lemmas on the model\<close>

subsection \<open>The substring test is the occurrence of a contiguous run\<close>

lemma starts_with_iff: "starts_with sub s \<longleftrightarrow> (\<exists>q. s = sub @ q)"
proof
  assume "starts_with sub s"
  then have "s = sub @ drop (length sub) s"
    unfolding starts_with_def by (metis append_take_drop_id)
  then show "\<exists>q. s = sub @ q" ..
next
  assume "\<exists>q. s = sub @ q"
  then show "starts_with sub s" by (auto simp: starts_with_def)
qed

lemma str_in_iff: "str_in sub s \<longleftrightarrow> (\<exists>p q. s = p @ sub @ q)"
proof (induction s)
  case Nil
  then show ?case by (auto simp: starts_with_def)
next
  case (Cons c s)
  show ?case
  proof
    assume "str_in sub (c # s)"
    then consider "starts_with sub (c # s)" | "str_in sub s" by auto
    then show "\<exists>p q. c # s = p @ sub @ q"
    proof cases
      case 1
      then obtain q where "c # s = sub @ q" by (auto simp: starts_with_iff)
      then have "c # s = [] @ sub @ q" by simp
      then show ?thesis by blast
    next
      case 2
      then obtain p q where "s = p @ sub @ q" using Cons.IH by auto
      then have "c # s = (c # p) @ sub @ q" by simp
      then show ?thesis by blast
    qed
  next
    assume "\<exists>p q. c # s = p @ sub @ q"
    then obtain p q where e: "c # s = p @ sub @ q" by auto
    show "str_in sub (c # s)"
    proof (cases p)
      case Nil
      with e have "starts_with sub (c # s)" by (auto simp: starts_with_iff)
      then show ?thesis by simp
    next
      case (Cons c' p')
      with e have "s = p' @ sub @ q" by simp
      then have "str_in sub s" using Cons.IH by auto
      then show ?thesis by simp
    qed
  qed
qed

subsection \<open>The sink, the loops and the slices\<close>

lemma world_ops [simp]:
  "timelines (set_time_sequence name i w) = (timelines w)(name \<mapsto> Seq i)"
  "logged (set_time_sequence name i w) = logged w"
  "events (set_time_sequence name i w) = events w"
  "timelines (set_time_seconds name t w) = (timelines w)(name \<mapsto> Secs t)"
  "logged (set_time_seconds name t w) = logged w"
  "events (set_time_seconds name t w) = events w"
  "timelines (rr_log p x w) = timelines w"
  "logged (rr_log p x w) = logged w @ [\<lparr>e_path = p, e_payload = x, e_times = timelines w\<rparr>]"
  "events (rr_log p x w) = events w"
  "timelines (emit ev w) = timelines w"
  "logged (emit ev w) = logged w"
  "events (emit ev w) = events w @ [ev]"
  by (simp_all add: set_time_sequence_def set_time_seconds_def rr_log_def emit_def)

lemma log_scalars_timelines [simp]: "timelines (log_scalars key d vals w) = timelines w"
  by (induction vals arbitrary: d w) simp_all

lemma log_scalars_events [simp]: "events (log_scalars key d vals w) = events w"
  by (induction vals arbitrary: d w) simp_all

lemma log_scalars_logged:
  "logged (log_scalars key d vals w) =
     logged w @ map (\<lambda>k. \<lparr>e_path = key @ ''/'' @ str_nat (d + k), e_payload = RrScalar (vals ! k),
                           e_times = timelines w\<rparr>) [0..<length vals]"
  by (induction vals arbitrary: d w) (simp_all add: map_upt_Suc del: upt_Suc)

lemma all_arr_simps [simp]:
  "all_arr []" "all_arr (f # fs) = ((\<exists>xs. f = Arr xs) \<and> all_arr fs)"
  by (simp_all add: all_arr_def)

lemma has_shape_Cons:
  "has_shape (n # ns) a = (\<exists>xs. a = Arr xs \<and> length xs = n \<and> list_all (has_shape ns) xs)"
  by (cases a) auto

lemma has_shape_all_arr: "list_all (has_shape (n # ns)) xs \<Longrightarrow> all_arr xs"
  by (induction xs) (auto simp: has_shape_Cons)

lemma has_shape_nth:
  "list_all (has_shape (n # ns)) xs \<Longrightarrow> i < length xs \<Longrightarrow>
     length (elems (xs ! i)) = n \<and> list_all (has_shape ns) (elems (xs ! i))"
  by (auto simp: list_all_length has_shape_Cons)

lemma robot_loop_fst:
  "all_arr frames \<Longrightarrow> fst (robot_loop key i frames w) = Inr ()"
  by (induction frames arbitrary: i w) auto

lemma robot_loop_logged:
  "all_arr frames \<Longrightarrow>
   logged (snd (robot_loop key i frames w)) =
     logged w @ concat (map (\<lambda>k. map (\<lambda>d. \<lparr>e_path = key @ ''/'' @ str_nat d,
          e_payload = RrScalar (elems (frames ! k) ! d),
          e_times = (timelines w)(''frame_index'' \<mapsto> Seq (i + k))\<rparr>) [0..<length (elems (frames ! k))])
        [0..<length frames])"
proof (induction frames arbitrary: i w)
  case Nil
  then show ?case by simp
next
  case (Cons f rest)
  then obtain vals where f: "f = Arr vals" by auto
  from Cons.prems have rest: "all_arr rest" by simp
  show ?case
    by (simp add: f Cons.IH [OF rest] log_scalars_logged map_upt_Suc del: upt_Suc fun_upd_apply)
qed

lemma upd2_absorb:
  "((m(a \<mapsto> x, b \<mapsto> y))(a \<mapsto> x', b \<mapsto> y')) = m(a \<mapsto> x', b \<mapsto> y')"
  by (rule ext) simp

lemma action_loop_fst:
  "all_arr frames \<Longrightarrow> fst (action_loop i t frames w) = Inr ()"
  by (induction frames arbitrary: i t w) auto

lemma action_loop_logged:
  "all_arr frames \<Longrightarrow>
   logged (snd (action_loop i t frames w)) =
     logged w @ concat (map (\<lambda>k. map (\<lambda>d. \<lparr>e_path = ''action/'' @ str_nat d,
          e_payload = RrScalar (elems (frames ! k) ! d),
          e_times = (timelines w)(''frame_index'' \<mapsto> Seq (i + k),
                                   ''timestamp'' \<mapsto> Secs (((\<lambda>s. fadd s dt) ^^ k) t))\<rparr>)
          [0..<length (elems (frames ! k))])
        [0..<length frames])"
proof (induction frames arbitrary: i t w)
  case Nil
  then show ?case by simp
next
  case (Cons f rest)
  then obtain vals where f: "f = Arr vals" by auto
  from Cons.prems have rest: "all_arr rest" by simp
  have t: "((\<lambda>s. fadd s dt) ^^ k) (fadd t dt) = fadd (((\<lambda>s. fadd s dt) ^^ k) t) dt" for k
    by (rule funpow_swap1 [of "\<lambda>s. fadd s dt" k t, symmetric])
  show ?case
    by (simp add: f Cons.IH [OF rest] log_scalars_logged map_upt_Suc upd2_absorb t
          del: upt_Suc fun_upd_apply)
qed

lemma concat_map_const_length:
  "(\<And>k. k < n \<Longrightarrow> length (f k) = d) \<Longrightarrow> length (concat (map f [0..<n])) = n * d"
  by (induction n) simp_all

subsection \<open>Slicing with stride two\<close>

lemma every_second_length: "length (every_second xs) = (length xs + 1) div 2"
  by (induction xs rule: every_second.induct) simp_all

lemma every_second_nth: "k < (length xs + 1) div 2 \<Longrightarrow> every_second xs ! k = xs ! (2 * k)"
proof (induction xs arbitrary: k rule: every_second.induct)
  case 1
  then show ?case by simp
next
  case (2 x)
  then show ?case by simp
next
  case (3 x y xs)
  then show ?case by (cases k) simp_all
qed

lemma every_second_eq:
  "every_second xs = map (\<lambda>k. xs ! (2 * k)) [0..<(length xs + 1) div 2]"
  by (rule nth_equalityI) (simp_all add: every_second_length every_second_nth)

lemma every_second_map: "every_second (map f xs) = map f (every_second xs)"
  by (induction xs rule: every_second.induct) simp_all

lemma slice_each_all_arr:
  "all_arr rows \<Longrightarrow> slice_each rows = Inr (map (\<lambda>r. Arr (every_second (elems r))) rows)"
  by (induction rows) auto

lemma ceiling_half: "nat \<lceil>real n / 2\<rceil> = (n + 1) div 2"
  by linarith

lemma slice2_shape:
  assumes "has_shape (H # W # ns) img"
  shows "slice2 img = Inr (spec_downsample H W img)"
proof -
  from assms obtain rows where img: "img = Arr rows" and len: "length rows = H"
    and rows: "list_all (has_shape (W # ns)) rows"
    by (auto simp: has_shape_Cons)
  have arr: "all_arr rows" using rows by (rule has_shape_all_arr)
  have row: "every_second (elems (rows ! (2 * a))) =
               map (\<lambda>b. elems (rows ! (2 * a)) ! (2 * b)) [0..<(W + 1) div 2]"
    if "a < (H + 1) div 2" for a
  proof -
    from that len have "2 * a < length rows" by linarith
    with rows have "length (elems (rows ! (2 * a))) = W" by (simp add: has_shape_nth)
    then show ?thesis by (simp add: every_second_eq)
  qed
  have "slice2 img = Inr (Arr (map (\<lambda>r. Arr (every_second (elems r))) (every_second rows)))"
    by (simp add: img slice_each_all_arr [OF arr] every_second_map)
  also have "map (\<lambda>r. Arr (every_second (elems r))) (every_second rows) =
      map (\<lambda>a. Arr (every_second (elems (rows ! (2 * a))))) [0..<(H + 1) div 2]"
    by (simp add: every_second_eq [of rows] len o_def)
  also have "\<dots> = map (\<lambda>a. Arr (map (\<lambda>b. elems (rows ! (2 * a)) ! (2 * b)) [0..<(W + 1) div 2]))
      [0..<(H + 1) div 2]"
    by (rule map_cong) (simp_all add: row)
  finally show ?thesis
    by (simp add: spec_downsample_def ceiling_half img)
qed

lemma spec_downsample_shape:
  assumes "has_shape (H # W # ns) img"
  shows "has_shape (nat \<lceil>real H / 2\<rceil> # nat \<lceil>real W / 2\<rceil> # ns) (spec_downsample H W img)"
proof -
  from assms obtain rows where img: "img = Arr rows" and len: "length rows = H"
    and rows: "list_all (has_shape (W # ns)) rows"
    by (auto simp: has_shape_Cons)
  have px: "has_shape ns (elems (rows ! (2 * a)) ! (2 * b))"
    if "a < (H + 1) div 2" and "b < (W + 1) div 2" for a b
  proof -
    from that len have a: "2 * a < length rows" by linarith
    with rows have l: "length (elems (rows ! (2 * a))) = W"
      and r: "list_all (has_shape ns) (elems (rows ! (2 * a)))"
      by (simp_all add: has_shape_nth)
    from that l have "2 * b < length (elems (rows ! (2 * a)))" by linarith
    with r show ?thesis by (simp add: list_all_length)
  qed
  show ?thesis
    by (simp add: spec_downsample_def ceiling_half img list_all_length px)
qed

lemma image_loop_fst:
  "list_all (has_shape (H # W # ns)) frames \<Longrightarrow> fst (image_loop key i frames w) = Inr ()"
proof (induction frames arbitrary: i w)
  case Nil
  then show ?case by simp
next
  case (Cons f rest)
  from Cons.prems have "has_shape (H # W # ns) f" by simp
  then have f: "slice2 f = Inr (spec_downsample H W f)" by (rule slice2_shape)
  from Cons.prems have rest: "list_all (has_shape (H # W # ns)) rest" by simp
  show ?case by (simp add: f Cons.IH [OF rest])
qed

lemma image_loop_logged:
  "list_all (has_shape (H # W # ns)) frames \<Longrightarrow>
   logged (snd (image_loop key i frames w)) =
     logged w @ map (\<lambda>k. \<lparr>e_path = key, e_payload = RrImage (spec_downsample H W (frames ! k)),
          e_times = (timelines w)(''frame_index'' \<mapsto> Seq (i + k))\<rparr>) [0..<length frames]"
proof (induction frames arbitrary: i w)
  case Nil
  then show ?case by simp
next
  case (Cons f rest)
  from Cons.prems have "has_shape (H # W # ns) f" by simp
  then have f: "slice2 f = Inr (spec_downsample H W f)" by (rule slice2_shape)
  from Cons.prems have rest: "list_all (has_shape (H # W # ns)) rest" by simp
  show ?case
    by (simp add: f Cons.IH [OF rest] map_upt_Suc del: upt_Suc fun_upd_apply)
qed

subsection \<open>Time axes that a step leaves alone\<close>

lemma keeps_refl [simp]: "keeps name w w"
  by (simp add: keeps_def)

lemma keeps_trans: "keeps name w w1 \<Longrightarrow> keeps name w1 w2 \<Longrightarrow> keeps name w w2"
  by (auto simp: keeps_def)

lemma keeps_set_time_sequence: "m \<noteq> name \<Longrightarrow> keeps name w (set_time_sequence m i w)"
  by (simp add: keeps_def)

lemma keeps_rr_log: "keeps name w (rr_log p x w)"
  by (simp add: keeps_def)

lemma keeps_emit: "keeps name w (emit ev w)"
  by (simp add: keeps_def)

lemma keeps_log_scalars: "keeps name w (log_scalars key d vals w)"
proof (induction vals arbitrary: d w)
  case Nil
  then show ?case by simp
next
  case (Cons v vals)
  have "keeps name w (log_scalars key (Suc d) vals (rr_log (key @ ''/'' @ str_nat d) (RrScalar v) w))"
    using keeps_rr_log Cons.IH by (rule keeps_trans)
  then show ?case by simp
qed

lemma keeps_robot_loop:
  "name \<noteq> ''frame_index'' \<Longrightarrow> keeps name w (snd (robot_loop key i frames w))"
proof (induction frames arbitrary: i w)
  case Nil
  then show ?case by simp
next
  case (Cons f rest)
  have s: "keeps name w (set_time_sequence ''frame_index'' i w)"
    using Cons.prems by (simp add: keeps_set_time_sequence)
  show ?case
  proof (cases f)
    case (Num v)
    then show ?thesis using s by simp
  next
    case (Arr vals)
    have "keeps name w (log_scalars key 0 vals (set_time_sequence ''frame_index'' i w))"
      using s keeps_log_scalars by (rule keeps_trans)
    then have "keeps name w
        (snd (robot_loop key (Suc i) rest (log_scalars key 0 vals (set_time_sequence ''frame_index'' i w))))"
      using Cons.IH [OF Cons.prems] by (rule keeps_trans)
    then show ?thesis by (simp add: Arr)
  qed
qed

lemma keeps_image_loop:
  "name \<noteq> ''frame_index'' \<Longrightarrow> keeps name w (snd (image_loop key i frames w))"
proof (induction frames arbitrary: i w)
  case Nil
  then show ?case by simp
next
  case (Cons f rest)
  have s: "keeps name w (set_time_sequence ''frame_index'' i w)"
    using Cons.prems by (simp add: keeps_set_time_sequence)
  show ?case
  proof (cases "slice2 f")
    case (Inl e)
    then show ?thesis using s by simp
  next
    case (Inr small)
    have "keeps name w (rr_log key (RrImage small) (set_time_sequence ''frame_index'' i w))"
      using s keeps_rr_log by (rule keeps_trans)
    then have "keeps name w
        (snd (image_loop key (Suc i) rest (rr_log key (RrImage small) (set_time_sequence ''frame_index'' i w))))"
      using Cons.IH [OF Cons.prems] by (rule keeps_trans)
    then show ?thesis by (simp add: Inr)
  qed
qed

lemma keeps_log_channel:
  "name \<noteq> ''frame_index'' \<Longrightarrow> keeps name w (snd (log_channel key val w))"
proof -
  assume n: "name \<noteq> ''frame_index''"
  have "keeps name w (snd (image_loop key 0 frames (emit (Tqdm key) w)))" for frames
    using keeps_emit keeps_image_loop [OF n] by (rule keeps_trans)
  then show ?thesis
    by (cases val) (simp_all add: log_channel_def keeps_robot_loop [OF n] keeps_emit)
qed

lemma keeps_log_observations:
  "name \<noteq> ''frame_index'' \<Longrightarrow> keeps name w (snd (log_observations obs w))"
proof (induction obs arbitrary: w)
  case Nil
  then show ?case by simp
next
  case (Cons kv rest)
  obtain key val where kv: "kv = (key, val)" by (cases kv)
  obtain r w1 where c: "log_channel key val w = (r, w1)" by (cases "log_channel key val w")
  have k1: "keeps name w w1"
    using keeps_log_channel [OF Cons.prems, of w key val] by (simp add: c)
  show ?case
  proof (cases r)
    case (Inl e)
    then show ?thesis using k1 by (simp add: kv c)
  next
    case (Inr u)
    have "keeps name w (snd (log_observations rest w1))"
      using k1 Cons.IH [OF Cons.prems] by (rule keeps_trans)
    then show ?thesis using Inr by (simp add: kv c)
  qed
qed

subsection \<open>The trace of effects and the viewer\<close>

lemma action_loop_events [simp]: "events (snd (action_loop i t frames w)) = events w"
  by (induction frames arbitrary: i t w) (simp_all add: Let_def split: sum.splits)

lemma robot_loop_events [simp]: "events (snd (robot_loop key i frames w)) = events w"
  by (induction frames arbitrary: i w) (simp_all add: Let_def split: sum.splits)

lemma image_loop_events [simp]: "events (snd (image_loop key i frames w)) = events w"
  by (induction frames arbitrary: i w) (simp_all add: Let_def split: sum.splits)

lemma log_actions_events [simp]: "events (snd (log_actions actions w)) = events w"
  by (simp add: log_actions_def split: option.splits sum.splits)

lemma log_channel_viewers:
  "filter spawns_viewer (events (snd (log_channel key val w))) = filter spawns_viewer (events w)"
  by (simp add: log_channel_def split: sum.splits)

lemma log_observations_viewers:
  "filter spawns_viewer (events (snd (log_observations obs w))) = filter spawns_viewer (events w)"
proof (induction obs arbitrary: w)
  case Nil
  then show ?case by simp
next
  case (Cons kv rest)
  obtain key val where kv: "kv = (key, val)" by (cases kv)
  obtain r w1 where c: "log_channel key val w = (r, w1)" by (cases "log_channel key val w")
  have k1: "filter spawns_viewer (events w1) = filter spawns_viewer (events w)"
    using log_channel_viewers [of key val w] by (simp add: c)
  show ?case
    by (cases r) (simp_all add: kv c k1 Cons.IH)
qed

lemma np_load_viewers:
  "filter spawns_viewer (events (snd (np_load ev p w))) = filter spawns_viewer (events w)"
  by (simp add: np_load_def split: option.splits)

lemma stream_viewers:
  "filter spawns_viewer (events (snd (stream ev p n w))) = filter spawns_viewer (events w)"
proof -
  let ?w0 = "emit (LoggingInfo ''Loading actions.'') w"
  let ?pa = "processed_dir p n @ [''actions.npz'']"
  let ?po = "processed_dir p n @ [''observations.npz'']"
  obtain r1 w1 where l1: "np_load ev ?pa ?w0 = (r1, w1)" by (cases "np_load ev ?pa ?w0")
  have v1: "filter spawns_viewer (events w1) = filter spawns_viewer (events w)"
    using np_load_viewers [of ev ?pa ?w0] by (simp add: l1)
  show ?thesis
  proof (cases r1)
    case (Inl e)
    then show ?thesis by (simp add: stream_def l1 v1)
  next
    case (Inr actions)
    obtain r2 w2 where l2: "log_actions actions w1 = (r2, w2)" by (cases "log_actions actions w1")
    have v2: "events w2 = events w1"
      using log_actions_events [of actions w1] by (simp add: l2)
    show ?thesis
    proof (cases r2)
      case (Inl e)
      then show ?thesis using Inr by (simp add: stream_def l1 l2 v1 v2)
    next
      case r2: (Inr u)
      obtain r3 w3 where l3: "np_load ev ?po w2 = (r3, w3)" by (cases "np_load ev ?po w2")
      have v3: "filter spawns_viewer (events w3) = filter spawns_viewer (events w)"
        using np_load_viewers [of ev ?po w2] by (simp add: l3 v2 v1)
      show ?thesis
        using Inr r2
        by (cases r3) (simp_all add: stream_def l1 l2 l3 v3 log_observations_viewers)
    qed
  qed
qed

lemma sleeps_viewers:
  "filter spawns_viewer (events (sleeps n w)) = filter spawns_viewer (events w)"
  by (induction n arbitrary: w) simp_all

lemma finalize_viewers:
  "filter spawns_viewer (events (snd (finalize ev n mode save output_dir w))) =
     filter spawns_viewer (events w)"
  by (simp add: finalize_def sleeps_viewers Let_def split: option.splits)

subsection \<open>Arrays of a given shape\<close>

lemma running_total_funpow: "running_total i = ((\<lambda>s. fadd s dt) ^^ i) 0"
  by (induction i) simp_all

lemma concat_map_cong_upt:
  "(\<And>k. k < n \<Longrightarrow> f k = g k) \<Longrightarrow> concat (map f [0..<n]) = concat (map g [0..<n])"
  by (rule arg_cong [where f = concat], rule map_cong) simp_all

lemma action_T_D:
  assumes a: "a = Arr frames" and T: "length frames = T" and D: "list_all (has_shape [D]) frames"
  shows "logged (snd (action_loop 0 0 frames w)) =
      logged w @ concat (map (\<lambda>i. map (\<lambda>d. \<lparr>e_path = ''action/'' @ str_nat d,
          e_payload = RrScalar (elems (elems a ! i) ! d),
          e_times = (timelines w)(''frame_index'' \<mapsto> Seq i,
                                   ''timestamp'' \<mapsto> Secs (running_total i))\<rparr>) [0..<D]) [0..<T])"
proof -
  have arr: "all_arr frames" using D by (rule has_shape_all_arr)
  have "concat (map (\<lambda>k. map (\<lambda>d. \<lparr>e_path = ''action/'' @ str_nat d,
          e_payload = RrScalar (elems (frames ! k) ! d),
          e_times = (timelines w)(''frame_index'' \<mapsto> Seq (0 + k),
                                   ''timestamp'' \<mapsto> Secs (((\<lambda>s. fadd s dt) ^^ k) 0))\<rparr>)
          [0..<length (elems (frames ! k))]) [0..<length frames]) =
        concat (map (\<lambda>i. map (\<lambda>d. \<lparr>e_path = ''action/'' @ str_nat d,
          e_payload = RrScalar (elems (elems a ! i) ! d),
          e_times = (timelines w)(''frame_index'' \<mapsto> Seq i,
                                   ''timestamp'' \<mapsto> Secs (running_total i))\<rparr>) [0..<D]) [0..<T])"
    unfolding T
  proof (rule concat_map_cong_upt)
    fix k assume "k < T"
    with T D have "length (elems (frames ! k)) = D" by (simp add: has_shape_nth)
    then show "map (\<lambda>d. \<lparr>e_path = ''action/'' @ str_nat d,
          e_payload = RrScalar (elems (frames ! k) ! d),
          e_times = (timelines w)(''frame_index'' \<mapsto> Seq (0 + k),
                                   ''timestamp'' \<mapsto> Secs (((\<lambda>s. fadd s dt) ^^ k) 0))\<rparr>)
          [0..<length (elems (frames ! k))] =
        map (\<lambda>d. \<lparr>e_path = ''action/'' @ str_nat d,
          e_payload = RrScalar (elems (elems a ! k) ! d),
          e_times = (timelines w)(''frame_index'' \<mapsto> Seq k,
                                   ''timestamp'' \<mapsto> Secs (running_total k))\<rparr>) [0..<D]"
      by (simp add: a running_total_funpow del: fun_upd_apply)
  qed
  then show ?thesis
    by (simp only: action_loop_logged [OF arr])
qed

lemma robot_T_D:
  assumes a: "a = Arr frames" and T: "length frames = T" and D: "list_all (has_shape [D]) frames"
  shows "logged (snd (robot_loop key 0 frames w)) =
      logged w @ concat (map (\<lambda>i. map (\<lambda>d. \<lparr>e_path = key @ ''/'' @ str_nat d,
          e_payload = RrScalar (elems (elems a ! i) ! d),
          e_times = (timelines w)(''frame_index'' \<mapsto> Seq i)\<rparr>) [0..<D]) [0..<T])"
proof -
  have arr: "all_arr frames" using D by (rule has_shape_all_arr)
  have "concat (map (\<lambda>k. map (\<lambda>d. \<lparr>e_path = key @ ''/'' @ str_nat d,
          e_payload = RrScalar (elems (frames ! k) ! d),
          e_times = (timelines w)(''frame_index'' \<mapsto> Seq (0 + k))\<rparr>)
          [0..<length (elems (frames ! k))]) [0..<length frames]) =
        concat (map (\<lambda>i. map (\<lambda>d. \<lparr>e_path = key @ ''/'' @ str_nat d,
          e_payload = RrScalar (elems (elems a ! i) ! d),
          e_times = (timelines w)(''frame_index'' \<mapsto> Seq i)\<rparr>) [0..<D]) [0..<T])"
    unfolding T
  proof (rule concat_map_cong_upt)
    fix k assume "k < T"
    with T D have "length (elems (frames ! k)) = D" by (simp add: has_shape_nth)
    then show "map (\<lambda>d. \<lparr>e_path = key @ ''/'' @ str_nat d,
          e_payload = RrScalar (elems (frames ! k) ! d),
          e_times = (timelines w)(''frame_index'' \<mapsto> Seq (0 + k))\<rparr>)
          [0..<length (elems (frames ! k))] =
        map (\<lambda>d. \<lparr>e_path = key @ ''/'' @ str_nat d,
          e_payload = RrScalar (elems (elems a ! k) ! d),
          e_times = (timelines w)(''frame_index'' \<mapsto> Seq k)\<rparr>) [0..<D]"
      by (simp add: a del: fun_upd_apply)
  qed
  then show ?thesis
    by (simp only: robot_loop_logged [OF arr])
qed

lemma length_rows: "length (concat (map (\<lambda>i. map (f i) [0..<D]) [0..<T])) = T * D"
  by (rule concat_map_const_length) simp

lemma robot_channel:
  assumes "str_in ''robot_'' key" and "has_shape [T, D] val"
  shows "fst (log_channel key val w) = Inr () \<and>
    logged (snd (log_channel key val w)) =
      logged w @ concat (map (\<lambda>i. map (\<lambda>d. \<lparr>e_path = key @ ''/'' @ str_nat d,
          e_payload = RrScalar (elems (elems val ! i) ! d),
          e_times = (timelines w)(''frame_index'' \<mapsto> Seq i)\<rparr>) [0..<D]) [0..<T])"
proof -
  from assms(2) obtain frames where a: "val = Arr frames" and T: "length frames = T"
    and D: "list_all (has_shape [D]) frames"
    by (auto simp: has_shape_Cons)
  have arr: "all_arr frames" using D by (rule has_shape_all_arr)
  have c: "log_channel key val w = robot_loop key 0 frames w"
    using assms(1) by (simp add: log_channel_def a)
  show ?thesis
    unfolding c using robot_loop_fst [OF arr] robot_T_D [OF a T D] by simp
qed

lemma log_actions_T_D:
  assumes "map_of actions ''actions'' = Some a" and "has_shape [T, D] a"
  shows "fst (log_actions actions w) = Inr () \<and>
    logged (snd (log_actions actions w)) =
      logged w @ concat (map (\<lambda>i. map (\<lambda>d. \<lparr>e_path = ''action/'' @ str_nat d,
          e_payload = RrScalar (elems (elems a ! i) ! d),
          e_times = (timelines w)(''frame_index'' \<mapsto> Seq i,
                                   ''timestamp'' \<mapsto> Secs (running_total i))\<rparr>) [0..<D]) [0..<T])"
proof -
  from assms(2) obtain frames where a: "a = Arr frames" and T: "length frames = T"
    and D: "list_all (has_shape [D]) frames"
    by (auto simp: has_shape_Cons)
  have arr: "all_arr frames" using D by (rule has_shape_all_arr)
  have c: "log_actions actions w = action_loop 0 0 frames w"
    by (simp add: log_actions_def assms(1) a)
  show ?thesis
    unfolding c using action_loop_fst [OF arr] action_T_D [OF a T D] by simp
qed

lemma image_channel:
  assumes "\<not> str_in ''robot_'' key" and "\<not> str_in ''_depth'' key"
    and "has_shape [T, H, W, C] val"
  shows "fst (log_channel key val w) = Inr () \<and>
    logged (snd (log_channel key val w)) =
      logged w @ map (\<lambda>i. \<lparr>e_path = key,
          e_payload = RrImage (spec_downsample H W (elems val ! i)),
          e_times = (timelines w)(''frame_index'' \<mapsto> Seq i)\<rparr>) [0..<T]"
proof -
  from assms(3) obtain frames where a: "val = Arr frames" and T: "length frames = T"
    and F: "list_all (has_shape [H, W, C]) frames"
    by (auto simp: has_shape_Cons)
  have c: "log_channel key val w = image_loop key 0 frames (emit (Tqdm key) w)"
    using assms(1,2) by (simp add: log_channel_def a)
  have l: "logged (snd (log_channel key val w)) =
      logged w @ map (\<lambda>i. \<lparr>e_path = key,
          e_payload = RrImage (spec_downsample H W (elems val ! i)),
          e_times = (timelines w)(''frame_index'' \<mapsto> Seq i)\<rparr>) [0..<T]"
    unfolding c by (simp add: image_loop_logged [OF F] a T del: fun_upd_apply)
  from image_loop_fst [OF F] l show ?thesis
    unfolding c by simp
qed

lemma keeps_drop:
  assumes "keeps name w w'"
  shows "timelines w' name = timelines w name \<and>
    take (length (logged w)) (logged w') = logged w \<and>
    list_all (\<lambda>e. e_times e name = timelines w name) (drop (length (logged w)) (logged w'))"
  using assms by (auto simp: keeps_def)

lemma frames_of_rows:
  "map (\<lambda>e. e_times e name) (concat (map (\<lambda>i. map (\<lambda>d. \<lparr>e_path = p d, e_payload = x i d,
      e_times = m i\<rparr>) [0..<D]) rows)) = concat (map (\<lambda>i. replicate D (m i name)) rows)"
  by (induction rows) (simp_all add: map_replicate_const o_def)

lemma after_stream_viewers:
  "filter spawns_viewer (events (snd
     (case stream ev p n w of
        (Inl e, w') \<Rightarrow> (Raised e, w')
      | (Inr u, w') \<Rightarrow> finalize ev n mode save output_dir w'))) =
   filter spawns_viewer (events w)"
proof -
  obtain r w6 where st: "stream ev p n w = (r, w6)" by (cases "stream ev p n w")
  have v6: "filter spawns_viewer (events w6) = filter spawns_viewer (events w)"
    using stream_viewers [of ev p n w] by (simp add: st)
  show ?thesis
    by (cases r) (simp_all add: st finalize_viewers v6)
qed

lemma visualize_dataset_viewers:
  "filter spawns_viewer (events (snd (visualize_dataset ev p n mode web_port ws_port save output_dir w))) =
     filter spawns_viewer (events w) @
       (if mode = ''local'' \<and> \<not> save then [RrInit (''episode_'' @ str_int n) True] else [])"
  by (simp add: visualize_dataset_def Let_def after_stream_viewers)

subsection \<open>The example episode\<close>

lemma dt_value: "dt = 3602879701896397 / 36028797018963968"
  unfolding dt_def by code_simp

lemma fadd_steps:
  "fadd 0 dt = 3602879701896397 / 36028797018963968"
  "fadd (3602879701896397 / 36028797018963968) dt = 3602879701896397 / 18014398509481984"
  "fadd (3602879701896397 / 18014398509481984) dt = 1351079888211149 / 4503599627370496"
  "fadd (1351079888211149 / 4503599627370496) dt = 3602879701896397 / 9007199254740992"
  "fadd (3602879701896397 / 9007199254740992) dt = 1 / 2"
  "fadd (1 / 2) dt = 5404319552844595 / 9007199254740992"
  "fadd (5404319552844595 / 9007199254740992) dt = 3152519739159347 / 4503599627370496"
  "fadd (3152519739159347 / 4503599627370496) dt = 7205759403792793 / 9007199254740992"
  by code_simp+

lemma str_nat_digits [simp]:
  "str_nat 0 = ''0''" "str_nat 1 = ''1''" "str_nat (Suc 0) = ''1''" "str_nat 2 = ''2''"
  "str_nat 3 = ''3''"
  by (simp_all add: str_nat.simps digit_char_def)

lemma upt_2 [simp]: "[0..<2] = [0, Suc 0]"
  by (simp add: upt_rec)

lemma example_stream:
  "fst (stream example_env [''data'', ''ep''] 3 w) = Inr () \<and>
   events (snd (stream example_env [''data'', ''ep''] 3 w)) = events w @
     [LoggingInfo ''Loading actions.'',
      NpLoad [''data'', ''ep'', ''diffusion_spartan'', ''episode_3'', ''processed'', ''actions.npz''],
      NpLoad [''data'', ''ep'', ''diffusion_spartan'', ''episode_3'', ''processed'', ''observations.npz'']] \<and>
   map e_path (logged (snd (stream example_env [''data'', ''ep''] 3 w))) = map e_path (logged w) @
     [''action/0'', ''action/1'', ''action/0'', ''action/1'', ''action/0'', ''action/1'',
      ''action/0'', ''action/1'', ''action/0'', ''action/1''] \<and>
   map (\<lambda>e. e_times e ''timestamp'') (logged (snd (stream example_env [''data'', ''ep''] 3 w))) =
     map (\<lambda>e. e_times e ''timestamp'') (logged w) @
     [Some (Secs 0), Some (Secs 0),
      Some (Secs (3602879701896397 / 36028797018963968)), Some (Secs (3602879701896397 / 36028797018963968)),
      Some (Secs (3602879701896397 / 18014398509481984)), Some (Secs (3602879701896397 / 18014398509481984)),
      Some (Secs (1351079888211149 / 4503599627370496)), Some (Secs (1351079888211149 / 4503599627370496)),
      Some (Secs (3602879701896397 / 9007199254740992)), Some (Secs (3602879701896397 / 9007199254740992))]"
  by (simp add: stream_def np_load_def processed_dir_def str_int_def example_env_def
      example_actions_def log_actions_def fadd_steps)

subsection \<open>From the whole call to a channel\<close>

lemma log_actions_fst:
  assumes "map_of actions ''actions'' = Some a" and "has_shape [T, D] a"
  shows "log_actions actions w = (Inr (), snd (log_actions actions w))"
  using conjunct1 [OF log_actions_T_D [OF assms, of w]] by (simp add: prod_eq_iff)

lemma visualize_reaches_observations:
  assumes "mode = ''local'' \<or> mode = ''distant''" and "\<not> (save \<and> output_dir = None)"
    and "files ev (processed_dir p n @ [''actions.npz'']) = Some actions"
    and "map_of actions ''actions'' = Some a" and "has_shape [Ta, Da] a"
    and "files ev (processed_dir p n @ [''observations.npz'']) = Some observations"
  shows "visualize_dataset ev p n mode web_port ws_port save output_dir w =
     (case log_observations observations
        (observations_start p n mode web_port ws_port save actions w) of
        (Inl e, w') \<Rightarrow> (Raised e, w')
      | (Inr u, w') \<Rightarrow> finalize ev n mode save output_dir w')"
proof -
  let ?w5 = "emit (LoggingInfo ''Logging to Rerun'')
               ((if mode = ''distant'' then emit (RrServe False web_port ws_port) else id)
                 (emit GcCollect
                   (emit (RrInit (''episode_'' @ str_int n) (mode = ''local'' \<and> \<not> save))
                     (emit (LoggingInfo ''Starting Rerun'') w))))"
  let ?wa = "emit (NpLoad (processed_dir p n @ [''actions.npz'']))
           (emit (LoggingInfo ''Loading actions.'') ?w5)"
  obtain wb where la: "log_actions actions ?wa = (Inr (), wb)"
    using log_actions_fst [OF assms(4,5), of ?wa] by blast
  have s: "stream ev p n ?w5 =
      log_observations observations (observations_start p n mode web_port ws_port save actions w)"
    by (simp only: stream_def np_load_def observations_start_def assms(3) assms(6) la
        option.case prod.case sum.case snd_conv)
  have v: "visualize_dataset ev p n mode web_port ws_port save output_dir w =
     (case stream ev p n ?w5 of
        (Inl e, w') \<Rightarrow> (Raised e, w')
      | (Inr u, w') \<Rightarrow> finalize ev n mode save output_dir w')"
    using assms(1,2) by (auto simp: visualize_dataset_def Let_def)
  show ?thesis unfolding v s ..
qed

lemma log_observations_append:
  "log_observations (pre @ rest) w =
     (case log_observations pre w of
        (Inl e, w') \<Rightarrow> (Inl e, w')
      | (Inr u, w') \<Rightarrow> log_observations rest w')"
  by (induction pre arbitrary: w) (auto split: prod.splits sum.splits)

lemma log_observations_reaches:
  assumes "log_observations pre w = (Inr (), w1)" and "fst (log_channel key val w1) = Inr ()"
  shows "log_observations (pre @ (key, val) # post) w =
     log_observations post (snd (log_channel key val w1))"
proof -
  obtain r w2 where c: "log_channel key val w1 = (r, w2)" by (cases "log_channel key val w1")
  with assms(2) have r: "r = Inr ()" by simp
  show ?thesis
    by (simp add: log_observations_append assms(1) c r)
qed

lemma sleeps_logged [simp]: "logged (sleeps n w) = logged w"
  by (induction n arbitrary: w) simp_all

lemma finalize_logged [simp]: "logged (snd (finalize ev n mode save output_dir w)) = logged w"
  by (simp add: finalize_def Let_def split: option.splits)

lemma log_observations_prefix:
  "take (length (logged w)) (logged (snd (log_observations obs w))) = logged w"
proof -
  have "keeps ''timestamp'' w (snd (log_observations obs w))"
    by (rule keeps_log_observations) simp
  from keeps_drop [OF this] show ?thesis by simp
qed

lemma after_observations_logged:
  "logged (snd (case log_observations obs w of
        (Inl e, w') \<Rightarrow> (Raised e, w')
      | (Inr u, w') \<Rightarrow> finalize ev n mode save output_dir w')) =
   logged (snd (log_observations obs w))"
  by (simp split: prod.splits sum.splits)

text \<open>
  In a call that reaches the channel \<open>(key, val)\<close> in the world \<open>w1\<close> and streams it without
  error, the rest of the call is the streaming of the later channels and the
  finalisation, and the records present after the channel stay where they are.
\<close>

lemma visualize_reaches_channel:
  assumes "mode = ''local'' \<or> mode = ''distant''" and "\<not> (save \<and> output_dir = None)"
    and "files ev (processed_dir p n @ [''actions.npz'']) = Some actions"
    and "map_of actions ''actions'' = Some a" and "has_shape [Ta, Da] a"
    and "files ev (processed_dir p n @ [''observations.npz'']) = Some (pre @ (key, val) # post)"
    and "log_observations pre (observations_start p n mode web_port ws_port save actions w) =
           (Inr (), w1)"
    and "fst (log_channel key val w1) = Inr ()"
  shows "visualize_dataset ev p n mode web_port ws_port save output_dir w =
       (case log_observations post (snd (log_channel key val w1)) of
          (Inl e, w') \<Rightarrow> (Raised e, w')
        | (Inr u, w') \<Rightarrow> finalize ev n mode save output_dir w') \<and>
     take (length (logged (snd (log_channel key val w1))))
       (logged (snd (visualize_dataset ev p n mode web_port ws_port save output_dir w))) =
       logged (snd (log_channel key val w1))"
proof -
  have v: "visualize_dataset ev p n mode web_port ws_port save output_dir w =
       (case log_observations post (snd (log_channel key val w1)) of
          (Inl e, w') \<Rightarrow> (Raised e, w')
        | (Inr u, w') \<Rightarrow> finalize ev n mode save output_dir w')"
    unfolding visualize_reaches_observations [OF assms(1-6)]
      log_observations_reaches [OF assms(7,8)] ..
  show ?thesis
    unfolding v by (simp only: after_observations_logged log_observations_prefix simp_thms)
qed

lemma visualize_keeps_actions:
  assumes "mode = ''local'' \<or> mode = ''distant''" and "\<not> (save \<and> output_dir = None)"
    and "files ev (processed_dir p n @ [''actions.npz'']) = Some actions"
    and "map_of actions ''actions'' = Some a" and "has_shape [T, D] a"
  shows "take (length (logged w) + T * D)
       (logged (snd (visualize_dataset ev p n mode web_port ws_port save output_dir w))) =
     logged w @ concat (map (\<lambda>i. map (\<lambda>d. \<lparr>e_path = ''action/'' @ str_nat d,
          e_payload = RrScalar (elems (elems a ! i) ! d),
          e_times = (timelines w)(''frame_index'' \<mapsto> Seq i,
                                   ''timestamp'' \<mapsto> Secs (running_total i))\<rparr>) [0..<D]) [0..<T])"
proof -
  let ?w5 = "emit (LoggingInfo ''Logging to Rerun'')
               ((if mode = ''distant'' then emit (RrServe False web_port ws_port) else id)
                 (emit GcCollect
                   (emit (RrInit (''episode_'' @ str_int n) (mode = ''local'' \<and> \<not> save))
                     (emit (LoggingInfo ''Starting Rerun'') w))))"
  let ?wa = "emit (NpLoad (processed_dir p n @ [''actions.npz'']))
           (emit (LoggingInfo ''Loading actions.'') ?w5)"
  let ?A = "concat (map (\<lambda>i. map (\<lambda>d. \<lparr>e_path = ''action/'' @ str_nat d,
          e_payload = RrScalar (elems (elems a ! i) ! d),
          e_times = (timelines w)(''frame_index'' \<mapsto> Seq i,
                                   ''timestamp'' \<mapsto> Secs (running_total i))\<rparr>) [0..<D]) [0..<T])"
  let ?po = "processed_dir p n @ [''observations.npz'']"
  obtain wb where la: "log_actions actions ?wa = (Inr (), wb)"
    using log_actions_fst [OF assms(4,5), of ?wa] by blast
  have tw: "timelines ?wa = timelines w" and lw: "logged ?wa = logged w"
    by (simp_all add: id_def)
  have lb: "logged wb = logged w @ ?A"
    using conjunct2 [OF log_actions_T_D [OF assms(4,5), of ?wa]]
    unfolding la snd_conv tw lw .
  have n: "length (logged wb) = length (logged w) + T * D"
    unfolding lb by (simp only: length_append length_rows)
  have v: "visualize_dataset ev p n mode web_port ws_port save output_dir w =
     (case stream ev p n ?w5 of
        (Inl e, w') \<Rightarrow> (Raised e, w')
      | (Inr u, w') \<Rightarrow> finalize ev n mode save output_dir w')"
    using assms(1,2) by (auto simp: visualize_dataset_def Let_def)
  have "take (length (logged wb))
       (logged (snd (visualize_dataset ev p n mode web_port ws_port save output_dir w))) = logged wb"
  proof (cases "files ev ?po")
    case None
    have "stream ev p n ?w5 = (Inl (FileNotFoundError ?po), emit (NpLoad ?po) wb)"
      by (simp only: stream_def np_load_def assms(3) None la option.case prod.case sum.case)
    then show ?thesis unfolding v by simp
  next
    case (Some obs)
    have "stream ev p n ?w5 = log_observations obs (emit (NpLoad ?po) wb)"
      by (simp only: stream_def np_load_def assms(3) Some la option.case prod.case sum.case)
    then show ?thesis
      unfolding v
      using log_observations_prefix [of "emit (NpLoad ?po) wb" obs]
      by (simp add: after_observations_logged)
  qed
  then have "take (length (logged w) + T * D)
       (logged (snd (visualize_dataset ev p n mode web_port ws_port save output_dir w))) = logged wb"
    by (simp only: n)
  then show ?thesis by (simp only: lb)
qed

lemma robot_channel_records:
  assumes "str_in ''robot_'' key" and "has_shape [T, D] val"
  shows "fst (log_channel key val w) = Inr () \<and>
    logged (snd (log_channel key val w)) = logged w @ scalar_records key T D val (timelines w) \<and>
    length (scalar_records key T D val (timelines w)) = T * D"
  using robot_channel [OF assms, of w]
  by (simp only: scalar_records_def length_rows simp_thms)

lemma image_channel_records:
  assumes "\<not> str_in ''robot_'' key" and "\<not> str_in ''_depth'' key"
    and "has_shape [T, H, W, C] val"
  shows "fst (log_channel key val w) = Inr () \<and>
    logged (snd (log_channel key val w)) = logged w @ image_records key T H W val (timelines w) \<and>
    length (image_records key T H W val (timelines w)) = T"
proof -
  have "length (image_records key T H W val (timelines w)) = T"
    by (simp add: image_records_def)
  with image_channel [OF assms, of w] show ?thesis
    by (simp only: image_records_def simp_thms)
qed

lemma skipped_iff:
  "(\<forall>v u. logged (snd (log_channel key v u)) = logged u) \<longleftrightarrow>
     (str_in ''_depth'' key \<and> \<not> str_in ''robot_'' key)"
proof
  assume a: "\<forall>v u. logged (snd (log_channel key v u)) = logged u"
  show "str_in ''_depth'' key \<and> \<not> str_in ''robot_'' key"
  proof (rule ccontr)
    assume n: "\<not> (str_in ''_depth'' key \<and> \<not> str_in ''robot_'' key)"
    have "logged (snd (log_channel key (Arr [Arr [Arr [Num 0]]]) empty_world)) \<noteq> logged empty_world"
      using n by (auto simp: log_channel_def empty_world_def)
    with a show False by blast
  qed
next
  assume "str_in ''_depth'' key \<and> \<not> str_in ''robot_'' key"
  then show "\<forall>v u. logged (snd (log_channel key v u)) = logged u"
    by (simp add: log_channel_def)
qed

lemma drop_of_take:
  "take (length ys + m) xs = ys @ zs \<Longrightarrow> length ys = k \<Longrightarrow> drop k (take (k + m) xs) = zs"
  by auto

subsection \<open>The example episode with observations\<close>

lemma example_files:
  "files example_episode (processed_dir [''data'', ''ep''] 3 @ [''actions.npz'']) =
     Some [(''actions'', example_actions)]"
  "files example_episode (processed_dir [''data'', ''ep''] 3 @ [''observations.npz'']) =
     Some example_observations"
  by (simp_all add: example_episode_def processed_dir_def str_int_def)

lemma example_names:
  "\<not> str_in ''robot_'' ''camera_front''" "\<not> str_in ''_depth'' ''camera_front''"
  "str_in ''robot_'' ''robot_state''" "\<not> str_in ''_depth'' ''robot_state''"
  "str_in ''robot_'' ''robot_arm_depth''" "str_in ''_depth'' ''robot_arm_depth''"
  "\<not> str_in ''robot_'' ''camera_front_depth''" "str_in ''_depth'' ''camera_front_depth''"
  by (simp_all add: starts_with_def)

lemma example_run:
  "fst (visualize_dataset example_episode [''data'', ''ep''] 3 ''local'' 9090 9087 False None
     empty_world) = Returned None \<and>
   map e_path (logged (snd (visualize_dataset example_episode [''data'', ''ep''] 3 ''local'' 9090 9087
     False None empty_world))) =
     [''action/0'', ''action/1'', ''action/0'', ''action/1'', ''action/0'', ''action/1'',
      ''action/0'', ''action/1'', ''action/0'', ''action/1'',
      ''camera_front'',
      ''robot_state/0'', ''robot_state/1'', ''robot_state/0'', ''robot_state/1'',
      ''robot_arm_depth/0'', ''robot_arm_depth/1''] \<and>
   map e_payload (logged (snd (visualize_dataset example_episode [''data'', ''ep''] 3 ''local'' 9090 9087
     False None empty_world))) =
     [RrScalar (Num 0), RrScalar (Num 1), RrScalar (Num 2), RrScalar (Num 3), RrScalar (Num 4),
      RrScalar (Num 5), RrScalar (Num 6), RrScalar (Num 7), RrScalar (Num 8), RrScalar (Num 9),
      RrImage (Arr [Arr [Arr [Num 1], Arr [Num 3]], Arr [Arr [Num 7], Arr [Num 9]]]),
      RrScalar (Num 5), RrScalar (Num 6), RrScalar (Num 7), RrScalar (Num 8),
      RrScalar (Num 3), RrScalar (Num 4)] \<and>
   map (\<lambda>e. e_times e ''frame_index'') (logged (snd (visualize_dataset example_episode
     [''data'', ''ep''] 3 ''local'' 9090 9087 False None empty_world))) =
     [Some (Seq 0), Some (Seq 0), Some (Seq 1), Some (Seq 1), Some (Seq 2), Some (Seq 2),
      Some (Seq 3), Some (Seq 3), Some (Seq 4), Some (Seq 4),
      Some (Seq 0),
      Some (Seq 0), Some (Seq 0), Some (Seq 1), Some (Seq 1),
      Some (Seq 0), Some (Seq 0)] \<and>
   map (\<lambda>e. e_times e ''timestamp'') (logged (snd (visualize_dataset example_episode
     [''data'', ''ep''] 3 ''local'' 9090 9087 False None empty_world))) =
     [Some (Secs 0), Some (Secs 0),
      Some (Secs (3602879701896397 / 36028797018963968)), Some (Secs (3602879701896397 / 36028797018963968)),
      Some (Secs (3602879701896397 / 18014398509481984)), Some (Secs (3602879701896397 / 18014398509481984)),
      Some (Secs (1351079888211149 / 4503599627370496)), Some (Secs (1351079888211149 / 4503599627370496)),
      Some (Secs (3602879701896397 / 9007199254740992)), Some (Secs (3602879701896397 / 9007199254740992)),
      Some (Secs (3602879701896397 / 9007199254740992)),
      Some (Secs (3602879701896397 / 9007199254740992)), Some (Secs (3602879701896397 / 9007199254740992)),
      Some (Secs (3602879701896397 / 9007199254740992)), Some (Secs (3602879701896397 / 9007199254740992)),
      Some (Secs (3602879701896397 / 9007199254740992)), Some (Secs (3602879701896397 / 9007199254740992))]"
  by (simp add: visualize_dataset_def stream_def np_load_def processed_dir_def str_int_def
      example_episode_def example_observations_def example_camera_def example_robot_def
      example_actions_def log_actions_def log_channel_def finalize_def starts_with_def
      empty_world_def fadd_steps Let_def)

lemma example_shapes:
  "map_of [(''actions'', example_actions)] ''actions'' = Some example_actions"
  "has_shape [5, 2] example_actions"
  "has_shape [1, 3, 3, 1] example_camera"
  "has_shape [2, 2] example_robot"
  "has_shape [1, 2] (Arr [Arr [Num 3, Num 4]])"
  by (simp_all add: example_actions_def example_camera_def example_robot_def)

lemma example_call:
  "''local'' = ''local'' \<or> ''local'' = ''distant''"
  "\<not> (False \<and> (None :: path option) = None)"
  by simp_all

lemma example_reached:
  "log_observations [] (observations_start [''data'', ''ep''] 3 ''local'' 9090 9087 False
        [(''actions'', example_actions)] empty_world) = (Inr (), (observations_start [''data'', ''ep''] 3 ''local'' 9090 9087 False
        [(''actions'', example_actions)] empty_world))"
  "log_observations [(''camera_front'', example_camera)] (observations_start [''data'', ''ep''] 3 ''local'' 9090 9087 False
        [(''actions'', example_actions)] empty_world) =
     (Inr (), snd (log_observations [(''camera_front'', example_camera)] (observations_start [''data'', ''ep''] 3 ''local'' 9090 9087 False
        [(''actions'', example_actions)] empty_world)))"
  "log_observations [(''camera_front'', example_camera), (''robot_state'', example_robot)] (observations_start [''data'', ''ep''] 3 ''local'' 9090 9087 False
        [(''actions'', example_actions)] empty_world) =
     (Inr (), snd (log_observations
        [(''camera_front'', example_camera), (''robot_state'', example_robot)] (observations_start [''data'', ''ep''] 3 ''local'' 9090 9087 False
        [(''actions'', example_actions)] empty_world)))"
  by (simp_all add: prod_eq_iff log_channel_def starts_with_def example_camera_def
      example_robot_def)

lemma example_before:
  "length (logged (observations_start [''data'', ''ep''] 3 ''local'' 9090 9087 False
        [(''actions'', example_actions)] empty_world)) = 10"
  "length (logged (snd (log_observations [(''camera_front'', example_camera)] (observations_start [''data'', ''ep''] 3 ''local'' 9090 9087 False
        [(''actions'', example_actions)] empty_world)))) = 11"
  "length (logged (snd (log_observations
     [(''camera_front'', example_camera), (''robot_state'', example_robot)] (observations_start [''data'', ''ep''] 3 ''local'' 9090 9087 False
        [(''actions'', example_actions)] empty_world)))) = 15"
  by (simp_all add: observations_start_def log_actions_def example_actions_def empty_world_def
      log_channel_def starts_with_def example_camera_def example_robot_def)

lemma round_values:
  "round_to_double (8 / 10) = 3602879701896397 / 4503599627370496"
  "round_to_double (8 * dt) = 3602879701896397 / 4503599627370496"
  by code_simp+

section \<open>The claims\<close>

subsection \<open>C1\<close>

text \<open>
  Claim C1 (saving branch). The claim: with mode \<^verbatim>\<open>local\<close>, \<^verbatim>\<open>save\<close> true and an output
  directory given, the call makes the directory, writes the session to
  \<^verbatim>\<open><repo>_episode_<n>.rrd\<close> under it and returns that path. What the code does: once
  both archives are streamed it makes the directory and then raises NameError at the read
  of \<^verbatim>\<open>repo_id\<close>; no file is written and no path is returned. If streaming raises, that
  error is the outcome.
\<close>

theorem C1_save_raises_NameError:
  "visualize_dataset ev p n ''local'' web_port ws_port True (Some d) w =
     (case stream ev p n
        (emit (LoggingInfo ''Logging to Rerun'')
          (emit GcCollect
            (emit (RrInit (''episode_'' @ str_int n) False)
              (emit (LoggingInfo ''Starting Rerun'') w)))) of
        (Inl e, w') \<Rightarrow> (Raised e, w')
      | (Inr u, w') \<Rightarrow> (Raised (NameError ''repo_id''), emit (Mkdir d) w'))"
  by (simp add: visualize_dataset_def finalize_def Let_def split: prod.splits sum.splits)

text \<open>
  The run on the example episode with output directory \<^verbatim>\<open>/tmp/out\<close>: the outcome is the
  NameError, the last effect is the creation of the directory, and no save is among the
  effects.
\<close>

theorem C1_save_raises_NameError_witness:
  "fst (visualize_dataset example_env [''data'', ''ep''] 3 ''local'' 9090 9087 True
     (Some [''tmp'', ''out'']) empty_world) = Raised (NameError ''repo_id'') \<and>
   events (snd (visualize_dataset example_env [''data'', ''ep''] 3 ''local'' 9090 9087 True
     (Some [''tmp'', ''out'']) empty_world)) =
     [LoggingInfo ''Starting Rerun'', RrInit ''episode_3'' False, GcCollect,
      LoggingInfo ''Logging to Rerun'', LoggingInfo ''Loading actions.'',
      NpLoad [''data'', ''ep'', ''diffusion_spartan'', ''episode_3'', ''processed'', ''actions.npz''],
      NpLoad [''data'', ''ep'', ''diffusion_spartan'', ''episode_3'', ''processed'', ''observations.npz''],
      Mkdir [''tmp'', ''out'']]"
proof -
  let ?w = "emit (LoggingInfo ''Logging to Rerun'')
          (emit GcCollect
            (emit (RrInit (''episode_'' @ str_int 3) False)
              (emit (LoggingInfo ''Starting Rerun'') empty_world)))"
  obtain r w' where st: "stream example_env [''data'', ''ep''] 3 ?w = (r, w')"
    by (cases "stream example_env [''data'', ''ep''] 3 ?w")
  from example_stream [of ?w] have r: "r = Inr ()"
    and ev: "events w' = events ?w @
     [LoggingInfo ''Loading actions.'',
      NpLoad [''data'', ''ep'', ''diffusion_spartan'', ''episode_3'', ''processed'', ''actions.npz''],
      NpLoad [''data'', ''ep'', ''diffusion_spartan'', ''episode_3'', ''processed'', ''observations.npz'']]"
    unfolding st by simp_all
  have v: "visualize_dataset example_env [''data'', ''ep''] 3 ''local'' 9090 9087 True
       (Some [''tmp'', ''out'']) empty_world =
      (Raised (NameError ''repo_id''), emit (Mkdir [''tmp'', ''out'']) w')"
    using C1_save_raises_NameError [of example_env "[''data'', ''ep'']" 3 9090 9087 "[''tmp'', ''out'']"
      empty_world]
    unfolding st r by simp
  show ?thesis
    unfolding v using ev by (simp add: empty_world_def str_int_def)
qed

subsection \<open>C2\<close>

text \<open>
  Claim C2 (depth channels), as amended. For every observation channel whose name contains
  \<^verbatim>\<open>_depth\<close> and does not contain \<^verbatim>\<open>robot_\<close>, whatever its array holds, the channel is
  skipped: the call succeeds and leaves the world as it was, so no record is emitted and no
  time axis is set.
\<close>

theorem C2_depth_channel:
  assumes "str_in ''_depth'' key" and "\<not> str_in ''robot_'' key"
  shows "log_channel key val w = (Inr (), w)"
  using assms by (simp add: log_channel_def)

text \<open>The channel \<^verbatim>\<open>camera_front_depth\<close> is skipped.\<close>

theorem C2_depth_channel_witness:
  "str_in ''_depth'' ''camera_front_depth'' \<and> \<not> str_in ''robot_'' ''camera_front_depth'' \<and>
   log_channel ''camera_front_depth'' (Arr [Arr [Arr [Num 1]]]) empty_world = (Inr (), empty_world)"
proof -
  have h1: "str_in ''_depth'' ''camera_front_depth''" by (simp add: starts_with_def)
  have h2: "\<not> str_in ''robot_'' ''camera_front_depth''" by (simp add: starts_with_def)
  show ?thesis
    using h1 h2 C2_depth_channel [OF h1 h2, of "Arr [Arr [Arr [Num 1]]]" empty_world]
    by simp
qed

text \<open>
  The claim as stated (every name that contains \<^verbatim>\<open>_depth\<close>) fails on the name
  \<^verbatim>\<open>robot_arm_depth\<close>: from the empty world, its 1 by 1 array yields one scalar record and
  sets the frame-index axis.
\<close>

theorem C2_counterexample:
  "str_in ''_depth'' ''robot_arm_depth'' \<and>
   logged empty_world = [] \<and>
   timelines empty_world ''frame_index'' = None \<and>
   map e_path (logged (snd (log_channel ''robot_arm_depth'' (Arr [Arr [Num 1]]) empty_world))) =
     [''robot_arm_depth/0''] \<and>
   map e_payload (logged (snd (log_channel ''robot_arm_depth'' (Arr [Arr [Num 1]]) empty_world))) =
     [RrScalar (Num 1)] \<and>
   timelines (snd (log_channel ''robot_arm_depth'' (Arr [Arr [Num 1]]) empty_world)) ''frame_index'' =
     Some (Seq 0)"
  by (simp add: log_channel_def starts_with_def empty_world_def)

subsection \<open>C3\<close>

text \<open>
  Claim C3 (action stream), as amended. For every actions archive whose array
  \<^verbatim>\<open>actions\<close> is T by D, the action loop succeeds and appends exactly T times D scalar
  records: frame by frame and, within a frame, dimension by dimension, the record of
  frame i and dimension d has the path \<^verbatim>\<open>action/<d>\<close>, the value at (i, d), the
  frame-index axis at i and the timestamp axis at the running total of frame i, which
  starts at 0 and is incremented by 0.1 per frame in the arithmetic of doubles. In every
  call that passes the checks of the arguments and finds the archive, these are the first
  records the call adds to the sink.
\<close>

theorem C3_action_stream:
  assumes "map_of actions ''actions'' = Some a" and "has_shape [T, D] a"
  shows "fst (log_actions actions w) = Inr () \<and>
    logged (snd (log_actions actions w)) =
      logged w @ concat (map (\<lambda>i. map (\<lambda>d. \<lparr>e_path = ''action/'' @ str_nat d,
          e_payload = RrScalar (elems (elems a ! i) ! d),
          e_times = (timelines w)(''frame_index'' \<mapsto> Seq i,
                                   ''timestamp'' \<mapsto> Secs (running_total i))\<rparr>) [0..<D]) [0..<T]) \<and>
    length (logged (snd (log_actions actions w))) = length (logged w) + T * D \<and>
    ((mode = ''local'' \<or> mode = ''distant'') \<and> \<not> (save \<and> output_dir = None) \<and>
     files ev (processed_dir p n @ [''actions.npz'']) = Some actions \<longrightarrow>
     take (length (logged w) + T * D)
       (logged (snd (visualize_dataset ev p n mode web_port ws_port save output_dir w))) =
     logged w @ concat (map (\<lambda>i. map (\<lambda>d. \<lparr>e_path = ''action/'' @ str_nat d,
          e_payload = RrScalar (elems (elems a ! i) ! d),
          e_times = (timelines w)(''frame_index'' \<mapsto> Seq i,
                                   ''timestamp'' \<mapsto> Secs (running_total i))\<rparr>) [0..<D]) [0..<T]))"
proof -
  note l = log_actions_T_D [OF assms, of w]
  have n: "length (logged (snd (log_actions actions w))) = length (logged w) + T * D"
    by (simp only: conjunct2 [OF l] length_append length_rows)
  have v: "take (length (logged w) + T * D)
       (logged (snd (visualize_dataset ev p n mode web_port ws_port save output_dir w))) =
     logged w @ concat (map (\<lambda>i. map (\<lambda>d. \<lparr>e_path = ''action/'' @ str_nat d,
          e_payload = RrScalar (elems (elems a ! i) ! d),
          e_times = (timelines w)(''frame_index'' \<mapsto> Seq i,
                                   ''timestamp'' \<mapsto> Secs (running_total i))\<rparr>) [0..<D]) [0..<T])"
    if "mode = ''local'' \<or> mode = ''distant''" and "\<not> (save \<and> output_dir = None)"
      and "files ev (processed_dir p n @ [''actions.npz'']) = Some actions"
    using visualize_keeps_actions [OF that assms] .
  from l n v show ?thesis by blast
qed

text \<open>
  The example episode (5 frames by 2 dimensions): ten records, frame indices 0, 0 to 4, 4,
  and the timestamps 0.0, 0.1, 0.2, 0.30000000000000004 and 0.4, each twice; the first
  ten records of the whole run are these.
\<close>

theorem C3_action_stream_witness:
  "map_of [(''actions'', example_actions)] ''actions'' = Some example_actions \<and>
   has_shape [5, 2] example_actions \<and>
   fst (log_actions [(''actions'', example_actions)] empty_world) = Inr () \<and>
   length (logged (snd (log_actions [(''actions'', example_actions)] empty_world))) = 0 + 5 * 2 \<and>
   map e_path (logged (snd (log_actions [(''actions'', example_actions)] empty_world))) =
     [''action/0'', ''action/1'', ''action/0'', ''action/1'', ''action/0'', ''action/1'',
      ''action/0'', ''action/1'', ''action/0'', ''action/1''] \<and>
   map (\<lambda>e. e_times e ''frame_index'') (logged (snd (log_actions [(''actions'', example_actions)] empty_world))) =
     [Some (Seq 0), Some (Seq 0), Some (Seq 1), Some (Seq 1), Some (Seq 2), Some (Seq 2),
      Some (Seq 3), Some (Seq 3), Some (Seq 4), Some (Seq 4)] \<and>
   map (\<lambda>e. e_times e ''timestamp'') (logged (snd (log_actions [(''actions'', example_actions)] empty_world))) =
     [Some (Secs 0), Some (Secs 0),
      Some (Secs (3602879701896397 / 36028797018963968)), Some (Secs (3602879701896397 / 36028797018963968)),
      Some (Secs (3602879701896397 / 18014398509481984)), Some (Secs (3602879701896397 / 18014398509481984)),
      Some (Secs (1351079888211149 / 4503599627370496)), Some (Secs (1351079888211149 / 4503599627370496)),
      Some (Secs (3602879701896397 / 9007199254740992)), Some (Secs (3602879701896397 / 9007199254740992))] \<and>
   take (0 + 5 * 2) (logged (snd (visualize_dataset example_episode [''data'', ''ep''] 3 ''local'' 9090 9087
       False None empty_world))) = (logged (snd (log_actions [(''actions'', example_actions)] empty_world)))"
proof -
  note t = C3_action_stream [OF example_shapes(1,2), where w = empty_world
      and ev = example_episode and p = "[''data'', ''ep'']" and n = 3 and mode = "''local''"
      and web_port = 9090 and ws_port = 9087 and save = False and output_dir = None]
  have l0: "length (logged empty_world) = 0" by (simp add: empty_world_def)
  have hyp: "(''local'' = ''local'' \<or> ''local'' = ''distant'') \<and>
      \<not> (False \<and> (None :: path option) = None) \<and>
      files example_episode (processed_dir [''data'', ''ep''] 3 @ [''actions.npz'']) =
        Some [(''actions'', example_actions)]"
    by (simp add: example_files)
  from t have e1: "fst (log_actions [(''actions'', example_actions)] empty_world) = Inr ()"
    by (elim conjE)
  from t have e2: "(logged (snd (log_actions [(''actions'', example_actions)] empty_world))) = (logged empty_world @ concat (map (\<lambda>i. map (\<lambda>d. \<lparr>e_path = ''action/'' @ str_nat d,
          e_payload = RrScalar (elems (elems example_actions ! i) ! d),
          e_times = (timelines empty_world)(''frame_index'' \<mapsto> Seq i,
                                   ''timestamp'' \<mapsto> Secs (running_total i))\<rparr>) [0..<2]) [0..<5]))"
    by (elim conjE)
  from t have "length (logged (snd (log_actions [(''actions'', example_actions)] empty_world))) = length (logged empty_world) + 5 * 2"
    by (elim conjE)
  then have e3: "length (logged (snd (log_actions [(''actions'', example_actions)] empty_world))) = 0 + 5 * 2" unfolding l0 .
  from t hyp have "take (length (logged empty_world) + 5 * 2) (logged (snd (visualize_dataset example_episode [''data'', ''ep''] 3 ''local'' 9090 9087
       False None empty_world))) = (logged empty_world @ concat (map (\<lambda>i. map (\<lambda>d. \<lparr>e_path = ''action/'' @ str_nat d,
          e_payload = RrScalar (elems (elems example_actions ! i) ! d),
          e_times = (timelines empty_world)(''frame_index'' \<mapsto> Seq i,
                                   ''timestamp'' \<mapsto> Secs (running_total i))\<rparr>) [0..<2]) [0..<5]))"
    by blast
  then have e4: "take (0 + 5 * 2) (logged (snd (visualize_dataset example_episode [''data'', ''ep''] 3 ''local'' 9090 9087
       False None empty_world))) = (logged (snd (log_actions [(''actions'', example_actions)] empty_world)))"
    unfolding l0 e2 .
  have r: "map e_path (logged (snd (log_actions [(''actions'', example_actions)] empty_world))) =
     [''action/0'', ''action/1'', ''action/0'', ''action/1'', ''action/0'', ''action/1'',
      ''action/0'', ''action/1'', ''action/0'', ''action/1''] \<and>
   map (\<lambda>e. e_times e ''frame_index'') (logged (snd (log_actions [(''actions'', example_actions)] empty_world))) =
     [Some (Seq 0), Some (Seq 0), Some (Seq 1), Some (Seq 1), Some (Seq 2), Some (Seq 2),
      Some (Seq 3), Some (Seq 3), Some (Seq 4), Some (Seq 4)] \<and>
   map (\<lambda>e. e_times e ''timestamp'') (logged (snd (log_actions [(''actions'', example_actions)] empty_world))) =
     [Some (Secs 0), Some (Secs 0),
      Some (Secs (3602879701896397 / 36028797018963968)), Some (Secs (3602879701896397 / 36028797018963968)),
      Some (Secs (3602879701896397 / 18014398509481984)), Some (Secs (3602879701896397 / 18014398509481984)),
      Some (Secs (1351079888211149 / 4503599627370496)), Some (Secs (1351079888211149 / 4503599627370496)),
      Some (Secs (3602879701896397 / 9007199254740992)), Some (Secs (3602879701896397 / 9007199254740992))]"
    by (simp add: log_actions_def example_actions_def empty_world_def fadd_steps)
  from example_shapes(1,2) e1 e3 r e4 show ?thesis by (intro conjI) (elim conjE, assumption)+
qed

text \<open>
  The claim as stated (the timestamp of frame i is i times 0.1) fails on an array of 9
  frames: the running total at frame 8 is 0.7999999999999999, which is neither the
  rational 8/10, nor the double nearest to it, nor the product of 8 and 0.1 in doubles
  (both 0.8); at frame 3 it is 0.30000000000000004, not 3/10.
\<close>

theorem C3_counterexample:
  "has_shape [9, 1]
     (Arr [Arr [Num 0], Arr [Num 0], Arr [Num 0], Arr [Num 0], Arr [Num 0], Arr [Num 0],
           Arr [Num 0], Arr [Num 0], Arr [Num 0]]) \<and>
   map (\<lambda>e. e_times e ''timestamp'') (logged (snd (log_actions
     [(''actions'',
       Arr [Arr [Num 0], Arr [Num 0], Arr [Num 0], Arr [Num 0], Arr [Num 0], Arr [Num 0],
            Arr [Num 0], Arr [Num 0], Arr [Num 0]])] empty_world))) =
     [Some (Secs 0), Some (Secs (3602879701896397 / 36028797018963968)), Some (Secs (3602879701896397 / 18014398509481984)),
      Some (Secs (1351079888211149 / 4503599627370496)), Some (Secs (3602879701896397 / 9007199254740992)), Some (Secs (1 / 2)),
      Some (Secs (5404319552844595 / 9007199254740992)), Some (Secs (3152519739159347 / 4503599627370496)), Some (Secs (7205759403792793 / 9007199254740992))] \<and>
   (7205759403792793 / 9007199254740992 :: rat) \<noteq> 8 / 10 \<and>
   (7205759403792793 / 9007199254740992 :: rat) \<noteq> round_to_double (8 / 10) \<and>
   (7205759403792793 / 9007199254740992 :: rat) \<noteq> round_to_double (8 * dt) \<and>
   (1351079888211149 / 4503599627370496 :: rat) \<noteq> 3 / 10"
proof -
  have a: "has_shape [9, 1]
     (Arr [Arr [Num 0], Arr [Num 0], Arr [Num 0], Arr [Num 0], Arr [Num 0], Arr [Num 0],
           Arr [Num 0], Arr [Num 0], Arr [Num 0]])"
    by simp
  have c: "(7205759403792793 / 9007199254740992 :: rat) \<noteq> 8 / 10" by simp
  have d: "(7205759403792793 / 9007199254740992 :: rat) \<noteq> round_to_double (8 / 10)"
    unfolding round_values by simp
  have e: "(7205759403792793 / 9007199254740992 :: rat) \<noteq> round_to_double (8 * dt)"
    unfolding round_values by simp
  have f: "(1351079888211149 / 4503599627370496 :: rat) \<noteq> 3 / 10" by simp
  show ?thesis
    using a c d e f by (simp add: log_actions_def empty_world_def fadd_steps)
qed

subsection \<open>C4\<close>

text \<open>
  Claim C4 (robot channels). For every observation channel whose name contains \<^verbatim>\<open>robot_\<close>
  and whose array is T by D, streaming the channel succeeds and appends exactly T times D
  scalar records, one per frame i and dimension d, at the path \<^verbatim>\<open><name>/<d>\<close>, with the
  value at (i, d) and the frame-index axis set to i; no other time axis is touched. In a
  call of \<^verbatim>\<open>visualize_dataset\<close> that passes the checks of the arguments, finds both
  archives, streams the actions and streams the channels before this one without error,
  the loop reaches the channel, the call goes on with the later channels and the
  finalisation, and the log of the call holds these T times D records right after the
  records that were there when the channel was reached.
\<close>

theorem C4_robot_channel:
  assumes "mode = ''local'' \<or> mode = ''distant''" and "\<not> (save \<and> output_dir = None)"
    and "files ev (processed_dir p n @ [''actions.npz'']) = Some actions"
    and "map_of actions ''actions'' = Some a" and "has_shape [Ta, Da] a"
    and "files ev (processed_dir p n @ [''observations.npz'']) = Some (pre @ (key, val) # post)"
    and "log_observations pre (observations_start p n mode web_port ws_port save actions w) =
           (Inr (), w1)"
    and "str_in ''robot_'' key" and "has_shape [T, D] val"
  shows "fst (log_channel key val u) = Inr () \<and>
    logged (snd (log_channel key val u)) = logged u @ scalar_records key T D val (timelines u) \<and>
    length (scalar_records key T D val (timelines u)) = T * D \<and>
    log_observations (pre @ (key, val) # post)
        (observations_start p n mode web_port ws_port save actions w) =
      log_observations post (snd (log_channel key val w1)) \<and>
    visualize_dataset ev p n mode web_port ws_port save output_dir w =
      (case log_observations post (snd (log_channel key val w1)) of
         (Inl e, w') \<Rightarrow> (Raised e, w')
       | (Inr r, w') \<Rightarrow> finalize ev n mode save output_dir w') \<and>
    take (length (logged w1) + T * D)
        (logged (snd (visualize_dataset ev p n mode web_port ws_port save output_dir w))) =
      logged w1 @ scalar_records key T D val (timelines w1)"
proof -
  note c = robot_channel_records [OF assms(8,9)]
  note f = conjunct1 [OF c [of w1]]
  note r = log_observations_reaches [OF assms(7) f, of post]
  note v = visualize_reaches_channel [OF assms(1-7) f]
  have l: "length (logged (snd (log_channel key val w1))) = length (logged w1) + T * D"
    using c [of w1] by simp
  have t: "take (length (logged w1) + T * D)
        (logged (snd (visualize_dataset ev p n mode web_port ws_port save output_dir w))) =
      logged w1 @ scalar_records key T D val (timelines w1)"
    using conjunct2 [OF v] unfolding l using c [of w1] by simp
  from c [of u] r conjunct1 [OF v] t show ?thesis by simp
qed

text \<open>
  The run on the example episode: the channel \<^verbatim>\<open>robot_state\<close> comes after the camera, is
  reached with 11 records in the log, and adds four scalar records.
\<close>

theorem C4_robot_channel_witness:
  "str_in ''robot_'' ''robot_state'' \<and> has_shape [2, 2] example_robot \<and>
   map e_path (logged (snd (visualize_dataset example_episode [''data'', ''ep''] 3 ''local'' 9090 9087
       False None empty_world))) =
     [''action/0'', ''action/1'', ''action/0'', ''action/1'', ''action/0'', ''action/1'',
      ''action/0'', ''action/1'', ''action/0'', ''action/1'',
      ''camera_front'',
      ''robot_state/0'', ''robot_state/1'', ''robot_state/0'', ''robot_state/1'',
      ''robot_arm_depth/0'', ''robot_arm_depth/1''] \<and>
   map e_path (drop 11 (take (11 + 2 * 2) (logged (snd (visualize_dataset example_episode [''data'', ''ep''] 3 ''local'' 9090 9087
       False None empty_world))))) =
     [''robot_state/0'', ''robot_state/1'', ''robot_state/0'', ''robot_state/1''] \<and>
   map e_payload (drop 11 (take (11 + 2 * 2) (logged (snd (visualize_dataset example_episode [''data'', ''ep''] 3 ''local'' 9090 9087
       False None empty_world))))) =
     [RrScalar (Num 5), RrScalar (Num 6), RrScalar (Num 7), RrScalar (Num 8)] \<and>
   map (\<lambda>e. e_times e ''frame_index'') (drop 11 (take (11 + 2 * 2) (logged (snd (visualize_dataset example_episode [''data'', ''ep''] 3 ''local'' 9090 9087
       False None empty_world))))) =
     [Some (Seq 0), Some (Seq 0), Some (Seq 1), Some (Seq 1)]"
proof -
  let ?w1 = "snd (log_observations [(''camera_front'', example_camera)] (observations_start [''data'', ''ep''] 3 ''local'' 9090 9087 False
        [(''actions'', example_actions)] empty_world))"
  have h6: "files example_episode (processed_dir [''data'', ''ep''] 3 @ [''observations.npz'']) =
      Some ([(''camera_front'', example_camera)] @ (''robot_state'', example_robot) #
        [(''robot_arm_depth'', Arr [Arr [Num 3, Num 4]]),
         (''camera_front_depth'', Arr [Arr [Arr [Num 1]]])])"
    by (simp add: example_files example_observations_def)
  note t = C4_robot_channel [OF example_call example_files(1) example_shapes(1,2) h6
      example_reached(2) example_names(3) example_shapes(4), where u = empty_world]
  from t have "take (length (logged ?w1) + 2 * 2) (logged (snd (visualize_dataset example_episode [''data'', ''ep''] 3 ''local'' 9090 9087
       False None empty_world))) =
      logged ?w1 @ scalar_records ''robot_state'' 2 2 example_robot (timelines ?w1)"
    by (elim conjE)
  then have d: "drop 11 (take (11 + 2 * 2) (logged (snd (visualize_dataset example_episode [''data'', ''ep''] 3 ''local'' 9090 9087
       False None empty_world)))) =
      scalar_records ''robot_state'' 2 2 example_robot (timelines ?w1)"
    by (rule drop_of_take [OF _ example_before(2)])
  have r: "map e_path (scalar_records ''robot_state'' 2 2 example_robot (timelines ?w1)) =
      [''robot_state/0'', ''robot_state/1'', ''robot_state/0'', ''robot_state/1''] \<and>
    map e_payload (scalar_records ''robot_state'' 2 2 example_robot (timelines ?w1)) =
      [RrScalar (Num 5), RrScalar (Num 6), RrScalar (Num 7), RrScalar (Num 8)] \<and>
    map (\<lambda>e. e_times e ''frame_index'')
      (scalar_records ''robot_state'' 2 2 example_robot (timelines ?w1)) =
      [Some (Seq 0), Some (Seq 0), Some (Seq 1), Some (Seq 1)]"
    by (simp add: scalar_records_def example_robot_def)
  show ?thesis
    unfolding d using r example_names(3) example_shapes(4) example_run
    by simp
qed

subsection \<open>C5\<close>

text \<open>
  Claim C5 (image channels). For every observation channel whose name contains neither
  \<^verbatim>\<open>robot_\<close> nor \<^verbatim>\<open>_depth\<close>, with T frames each of shape H by W by C, streaming the
  channel succeeds and appends exactly T image records at the path \<^verbatim>\<open><name>\<close>, the record
  of frame i with the frame-index axis at i; its image is the frame with every second row
  and every second column retained from index 0, of shape ceil(H/2) by ceil(W/2) by C. In
  a call of \<^verbatim>\<open>visualize_dataset\<close> that passes the checks of the arguments, finds both
  archives, streams the actions and streams the channels before this one without error,
  the loop reaches the channel, the call goes on with the later channels and the
  finalisation, and the log of the call holds these T records right after the records
  that were there when the channel was reached.
\<close>

theorem C5_image_channel:
  assumes "mode = ''local'' \<or> mode = ''distant''" and "\<not> (save \<and> output_dir = None)"
    and "files ev (processed_dir p n @ [''actions.npz'']) = Some actions"
    and "map_of actions ''actions'' = Some a" and "has_shape [Ta, Da] a"
    and "files ev (processed_dir p n @ [''observations.npz'']) = Some (pre @ (key, val) # post)"
    and "log_observations pre (observations_start p n mode web_port ws_port save actions w) =
           (Inr (), w1)"
    and "\<not> str_in ''robot_'' key" and "\<not> str_in ''_depth'' key"
    and "has_shape [T, H, W, C] val"
  shows "fst (log_channel key val u) = Inr () \<and>
    logged (snd (log_channel key val u)) = logged u @ image_records key T H W val (timelines u) \<and>
    length (image_records key T H W val (timelines u)) = T \<and>
    (\<forall>i<T. has_shape [nat \<lceil>real H / 2\<rceil>, nat \<lceil>real W / 2\<rceil>, C]
       (spec_downsample H W (elems val ! i))) \<and>
    log_observations (pre @ (key, val) # post)
        (observations_start p n mode web_port ws_port save actions w) =
      log_observations post (snd (log_channel key val w1)) \<and>
    visualize_dataset ev p n mode web_port ws_port save output_dir w =
      (case log_observations post (snd (log_channel key val w1)) of
         (Inl e, w') \<Rightarrow> (Raised e, w')
       | (Inr r, w') \<Rightarrow> finalize ev n mode save output_dir w') \<and>
    take (length (logged w1) + T)
        (logged (snd (visualize_dataset ev p n mode web_port ws_port save output_dir w))) =
      logged w1 @ image_records key T H W val (timelines w1)"
proof -
  note c = image_channel_records [OF assms(8,9,10)]
  note f = conjunct1 [OF c [of w1]]
  note r = log_observations_reaches [OF assms(7) f, of post]
  note v = visualize_reaches_channel [OF assms(1-7) f]
  have l: "length (logged (snd (log_channel key val w1))) = length (logged w1) + T"
    using c [of w1] by simp
  have t: "take (length (logged w1) + T)
        (logged (snd (visualize_dataset ev p n mode web_port ws_port save output_dir w))) =
      logged w1 @ image_records key T H W val (timelines w1)"
    using conjunct2 [OF v] unfolding l using c [of w1] by simp
  have s: "has_shape [nat \<lceil>real H / 2\<rceil>, nat \<lceil>real W / 2\<rceil>, C]
       (spec_downsample H W (elems val ! i))" if "i < T" for i
  proof -
    from assms(10) obtain frames where a: "val = Arr frames" and T: "length frames = T"
      and F: "list_all (has_shape [H, W, C]) frames"
      by (auto simp: has_shape_Cons)
    from that T F have "has_shape [H, W, C] (frames ! i)" by (simp add: list_all_length)
    then show ?thesis unfolding a by (simp add: spec_downsample_shape)
  qed
  from c [of u] r conjunct1 [OF v] t s show ?thesis by simp
qed

text \<open>
  The run on the example episode: the camera is the first channel, reached with the 10
  action records in the log; its one 3 by 3 frame gives the 2 by 2 image of its corners.
\<close>

theorem C5_image_channel_witness:
  "\<not> str_in ''robot_'' ''camera_front'' \<and> \<not> str_in ''_depth'' ''camera_front'' \<and>
   has_shape [1, 3, 3, 1] example_camera \<and>
   map e_path (logged (snd (visualize_dataset example_episode [''data'', ''ep''] 3 ''local'' 9090 9087
       False None empty_world))) =
     [''action/0'', ''action/1'', ''action/0'', ''action/1'', ''action/0'', ''action/1'',
      ''action/0'', ''action/1'', ''action/0'', ''action/1'',
      ''camera_front'',
      ''robot_state/0'', ''robot_state/1'', ''robot_state/0'', ''robot_state/1'',
      ''robot_arm_depth/0'', ''robot_arm_depth/1''] \<and>
   map e_payload (drop 10 (take (10 + 1) (logged (snd (visualize_dataset example_episode [''data'', ''ep''] 3 ''local'' 9090 9087
       False None empty_world))))) =
     [RrImage (Arr [Arr [Arr [Num 1], Arr [Num 3]], Arr [Arr [Num 7], Arr [Num 9]]])] \<and>
   map (\<lambda>e. e_times e ''frame_index'') (drop 10 (take (10 + 1) (logged (snd (visualize_dataset example_episode [''data'', ''ep''] 3 ''local'' 9090 9087
       False None empty_world))))) = [Some (Seq 0)] \<and>
   has_shape [2, 2, 1] (Arr [Arr [Arr [Num 1], Arr [Num 3]], Arr [Arr [Num 7], Arr [Num 9]]])"
proof -
  have h6: "files example_episode (processed_dir [''data'', ''ep''] 3 @ [''observations.npz'']) =
      Some ([] @ (''camera_front'', example_camera) #
        [(''robot_state'', example_robot), (''robot_arm_depth'', Arr [Arr [Num 3, Num 4]]),
         (''camera_front_depth'', Arr [Arr [Arr [Num 1]]])])"
    by (simp add: example_files example_observations_def)
  note t = C5_image_channel [OF example_call example_files(1) example_shapes(1,2) h6
      example_reached(1) example_names(1,2) example_shapes(3), where u = empty_world]
  from t have "take (length (logged (observations_start [''data'', ''ep''] 3 ''local'' 9090 9087 False
        [(''actions'', example_actions)] empty_world)) + 1) (logged (snd (visualize_dataset example_episode [''data'', ''ep''] 3 ''local'' 9090 9087
       False None empty_world))) =
      logged (observations_start [''data'', ''ep''] 3 ''local'' 9090 9087 False
        [(''actions'', example_actions)] empty_world) @ image_records ''camera_front'' 1 3 3 example_camera (timelines (observations_start [''data'', ''ep''] 3 ''local'' 9090 9087 False
        [(''actions'', example_actions)] empty_world))"
    by (elim conjE)
  then have d: "drop 10 (take (10 + 1) (logged (snd (visualize_dataset example_episode [''data'', ''ep''] 3 ''local'' 9090 9087
       False None empty_world)))) =
      image_records ''camera_front'' 1 3 3 example_camera (timelines (observations_start [''data'', ''ep''] 3 ''local'' 9090 9087 False
        [(''actions'', example_actions)] empty_world))"
    by (simp add: example_before(1))
  have c: "nat \<lceil>(3::real) / 2\<rceil> = 2" by linarith
  have r: "map e_payload (image_records ''camera_front'' 1 3 3 example_camera (timelines (observations_start [''data'', ''ep''] 3 ''local'' 9090 9087 False
        [(''actions'', example_actions)] empty_world))) =
      [RrImage (Arr [Arr [Arr [Num 1], Arr [Num 3]], Arr [Arr [Num 7], Arr [Num 9]]])] \<and>
    map (\<lambda>e. e_times e ''frame_index'')
      (image_records ''camera_front'' 1 3 3 example_camera (timelines (observations_start [''data'', ''ep''] 3 ''local'' 9090 9087 False
        [(''actions'', example_actions)] empty_world))) = [Some (Seq 0)]"
    by (simp add: image_records_def spec_downsample_def example_camera_def c)
  show ?thesis
    unfolding d using r example_names(1,2) example_shapes(3) example_run
    by simp
qed

subsection \<open>C6\<close>

text \<open>
  Claim C6 (timeline invariant), as amended. In the action loop and in the loop of every
  channel the frame-index axis starts at 0 and increases by 1 per frame: the D scalar
  records of frame i all carry the frame index i, so the index increases by 1 per record
  exactly where a frame is one record (an image loop, or D = 1). The timestamp axis is set in the action
  loop only (the running total at frame i): streaming any observations archive leaves the
  timestamp axis as it was, keeps the earlier records, and every record it adds carries
  that timestamp.
\<close>

theorem C6_timeline:
  assumes "map_of actions ''actions'' = Some a" and "has_shape [T, D] a"
    and "str_in ''robot_'' rkey" and "has_shape [Tr, Dr] rval"
    and "\<not> str_in ''robot_'' ikey" and "\<not> str_in ''_depth'' ikey"
    and "has_shape [Ti, H, W, C] ival"
  shows "map (\<lambda>e. e_times e ''frame_index'')
        (drop (length (logged w)) (logged (snd (log_actions actions w)))) =
      concat (map (\<lambda>i. replicate D (Some (Seq i))) [0..<T]) \<and>
    map (\<lambda>e. e_times e ''timestamp'')
        (drop (length (logged w)) (logged (snd (log_actions actions w)))) =
      concat (map (\<lambda>i. replicate D (Some (Secs (running_total i)))) [0..<T]) \<and>
    map (\<lambda>e. e_times e ''frame_index'')
        (drop (length (logged w)) (logged (snd (log_channel rkey rval w)))) =
      concat (map (\<lambda>i. replicate Dr (Some (Seq i))) [0..<Tr]) \<and>
    map (\<lambda>e. e_times e ''frame_index'')
        (drop (length (logged w)) (logged (snd (log_channel ikey ival w)))) =
      map (\<lambda>i. Some (Seq i)) [0..<Ti] \<and>
    timelines (snd (log_observations obs w)) ''timestamp'' = timelines w ''timestamp'' \<and>
    take (length (logged w)) (logged (snd (log_observations obs w))) = logged w \<and>
    list_all (\<lambda>e. e_times e ''timestamp'' = timelines w ''timestamp'')
      (drop (length (logged w)) (logged (snd (log_observations obs w))))"
proof -
  have a1: "map (\<lambda>e. e_times e ''frame_index'')
        (drop (length (logged w)) (logged (snd (log_actions actions w)))) =
      concat (map (\<lambda>i. replicate D (Some (Seq i))) [0..<T])"
    by (simp add: conjunct2 [OF log_actions_T_D [OF assms(1,2)]] frames_of_rows)
  have a2: "map (\<lambda>e. e_times e ''timestamp'')
        (drop (length (logged w)) (logged (snd (log_actions actions w)))) =
      concat (map (\<lambda>i. replicate D (Some (Secs (running_total i)))) [0..<T])"
    by (simp add: conjunct2 [OF log_actions_T_D [OF assms(1,2)]] frames_of_rows)
  have r1: "map (\<lambda>e. e_times e ''frame_index'')
        (drop (length (logged w)) (logged (snd (log_channel rkey rval w)))) =
      concat (map (\<lambda>i. replicate Dr (Some (Seq i))) [0..<Tr])"
    by (simp add: conjunct2 [OF robot_channel [OF assms(3,4)]] frames_of_rows)
  have i1: "map (\<lambda>e. e_times e ''frame_index'')
        (drop (length (logged w)) (logged (snd (log_channel ikey ival w)))) =
      map (\<lambda>i. Some (Seq i)) [0..<Ti]"
    by (simp add: conjunct2 [OF image_channel [OF assms(5,6,7)]] o_def)
  have "keeps ''timestamp'' w (snd (log_observations obs w))"
    by (rule keeps_log_observations) simp
  from a1 a2 r1 i1 keeps_drop [OF this] show ?thesis by simp
qed

text \<open>A 2 by 2 actions array, a 2 by 2 robot channel and an image channel of two frames.\<close>

theorem C6_timeline_witness:
  "map_of [(''actions'', Arr [Arr [Num 0, Num 1], Arr [Num 2, Num 3]])] ''actions'' =
      Some (Arr [Arr [Num 0, Num 1], Arr [Num 2, Num 3]]) \<and>
   has_shape [2, 2] (Arr [Arr [Num 0, Num 1], Arr [Num 2, Num 3]]) \<and>
   str_in ''robot_'' ''robot_state'' \<and>
   has_shape [2, 2] (Arr [Arr [Num 5, Num 6], Arr [Num 7, Num 8]]) \<and>
   \<not> str_in ''robot_'' ''camera_front'' \<and> \<not> str_in ''_depth'' ''camera_front'' \<and>
   has_shape [2, 1, 1, 1] (Arr [Arr [Arr [Arr [Num 1]]], Arr [Arr [Arr [Num 2]]]]) \<and>
   map (\<lambda>e. e_times e ''frame_index'')
     (logged (snd (log_actions [(''actions'', Arr [Arr [Num 0, Num 1], Arr [Num 2, Num 3]])] empty_world))) =
     [Some (Seq 0), Some (Seq 0), Some (Seq 1), Some (Seq 1)] \<and>
   map (\<lambda>e. e_times e ''timestamp'')
     (logged (snd (log_actions [(''actions'', Arr [Arr [Num 0, Num 1], Arr [Num 2, Num 3]])] empty_world))) =
     [Some (Secs 0), Some (Secs 0),
      Some (Secs (3602879701896397 / 36028797018963968)), Some (Secs (3602879701896397 / 36028797018963968))] \<and>
   map (\<lambda>e. e_times e ''frame_index'')
     (logged (snd (log_channel ''robot_state'' (Arr [Arr [Num 5, Num 6], Arr [Num 7, Num 8]])
        empty_world))) =
     [Some (Seq 0), Some (Seq 0), Some (Seq 1), Some (Seq 1)] \<and>
   map (\<lambda>e. e_times e ''frame_index'')
     (logged (snd (log_channel ''camera_front'' (Arr [Arr [Arr [Arr [Num 1]]], Arr [Arr [Arr [Num 2]]]])
        empty_world))) =
     [Some (Seq 0), Some (Seq 1)] \<and>
   timelines (snd (log_observations
      [(''robot_state'', Arr [Arr [Num 5, Num 6], Arr [Num 7, Num 8]]),
       (''camera_front'', Arr [Arr [Arr [Arr [Num 1]]], Arr [Arr [Arr [Num 2]]]])] empty_world))
      ''timestamp'' = None \<and>
   map (\<lambda>e. e_times e ''timestamp'') (logged (snd (log_observations
      [(''robot_state'', Arr [Arr [Num 5, Num 6], Arr [Num 7, Num 8]]),
       (''camera_front'', Arr [Arr [Arr [Arr [Num 1]]], Arr [Arr [Arr [Num 2]]]])] empty_world))) =
     [None, None, None, None, None, None]"
proof -
  have h1: "map_of [(''actions'', Arr [Arr [Num 0, Num 1], Arr [Num 2, Num 3]])] ''actions'' =
      Some (Arr [Arr [Num 0, Num 1], Arr [Num 2, Num 3]])" by simp
  have h2: "has_shape [2, 2] (Arr [Arr [Num 0, Num 1], Arr [Num 2, Num 3]])" by simp
  have h3: "str_in ''robot_'' ''robot_state''" by (simp add: starts_with_def)
  have h4: "has_shape [2, 2] (Arr [Arr [Num 5, Num 6], Arr [Num 7, Num 8]])" by simp
  have h5: "\<not> str_in ''robot_'' ''camera_front''" by (simp add: starts_with_def)
  have h6: "\<not> str_in ''_depth'' ''camera_front''" by (simp add: starts_with_def)
  have h7: "has_shape [2, 1, 1, 1] (Arr [Arr [Arr [Arr [Num 1]]], Arr [Arr [Arr [Num 2]]]])" by simp
  have e: "map (\<lambda>e. e_times e ''timestamp'') (logged (snd (log_observations
      [(''robot_state'', Arr [Arr [Num 5, Num 6], Arr [Num 7, Num 8]]),
       (''camera_front'', Arr [Arr [Arr [Arr [Num 1]]], Arr [Arr [Arr [Num 2]]]])] empty_world))) =
     [None, None, None, None, None, None]"
    by (simp add: log_channel_def starts_with_def empty_world_def)
  show ?thesis
    using h1 h2 h3 h4 h5 h6 h7 e
      C6_timeline [OF h1 h2 h3 h4 h5 h6 h7, of empty_world
        "[(''robot_state'', Arr [Arr [Num 5, Num 6], Arr [Num 7, Num 8]]),
          (''camera_front'', Arr [Arr [Arr [Arr [Num 1]]], Arr [Arr [Arr [Num 2]]]])]"]
    by (simp add: empty_world_def numeral_2_eq_2 fadd_steps)
qed

text \<open>
  The claim as stated (the frame index increases by 1 per emitted record) fails on a 2 by 2
  actions array: the four records carry the frame indices 0, 0, 1, 1, not 0, 1, 2, 3.
\<close>

theorem C6_counterexample:
  "has_shape [2, 2] (Arr [Arr [Num 0, Num 1], Arr [Num 2, Num 3]]) \<and>
   map (\<lambda>e. e_times e ''frame_index'')
     (logged (snd (log_actions [(''actions'', Arr [Arr [Num 0, Num 1], Arr [Num 2, Num 3]])] empty_world))) =
     [Some (Seq 0), Some (Seq 0), Some (Seq 1), Some (Seq 1)] \<and>
   map (\<lambda>e. e_times e ''frame_index'')
     (logged (snd (log_actions [(''actions'', Arr [Arr [Num 0, Num 1], Arr [Num 2, Num 3]])] empty_world))) \<noteq>
     [Some (Seq 0), Some (Seq 1), Some (Seq 2), Some (Seq 3)]"
  by (simp add: log_actions_def empty_world_def)

subsection \<open>C7\<close>

text \<open>
  Claim C7 (invalid mode), as amended. For every mode other than \<^verbatim>\<open>local\<close> and
  \<^verbatim>\<open>distant\<close>, in a call that passes the check of the output directory (\<^verbatim>\<open>save\<close> false, or
  an output directory given), the call raises ValueError of the mode. Its only effect
  before that is the logging call \<^verbatim>\<open>Starting Rerun\<close>: the sink is not initialised, nothing is
  served, no archive is loaded, nothing is logged to the sink.
\<close>

theorem C7_invalid_mode:
  assumes "mode \<noteq> ''local''" and "mode \<noteq> ''distant''" and "\<not> (save \<and> output_dir = None)"
  shows "visualize_dataset ev p n mode web_port ws_port save output_dir w =
      (Raised (ValueError mode), emit (LoggingInfo ''Starting Rerun'') w) \<and>
    events (snd (visualize_dataset ev p n mode web_port ws_port save output_dir w)) =
      events w @ [LoggingInfo ''Starting Rerun''] \<and>
    logged (snd (visualize_dataset ev p n mode web_port ws_port save output_dir w)) = logged w \<and>
    timelines (snd (visualize_dataset ev p n mode web_port ws_port save output_dir w)) = timelines w"
  using assms by (simp add: visualize_dataset_def)

text \<open>The mode \<^verbatim>\<open>bogus\<close> without saving.\<close>

theorem C7_invalid_mode_witness:
  "''bogus'' \<noteq> ''local'' \<and> ''bogus'' \<noteq> ''distant'' \<and>
   visualize_dataset \<lparr>files = Map.empty, interrupt = None\<rparr> [''data'', ''ep''] 3 ''bogus'' 9090 9087
     False None empty_world =
     (Raised (ValueError ''bogus''), emit (LoggingInfo ''Starting Rerun'') empty_world) \<and>
   events (snd (visualize_dataset \<lparr>files = Map.empty, interrupt = None\<rparr> [''data'', ''ep''] 3 ''bogus''
     9090 9087 False None empty_world)) = [LoggingInfo ''Starting Rerun'']"
proof -
  have h1: "''bogus'' \<noteq> ''local''" by simp
  have h2: "''bogus'' \<noteq> ''distant''" by simp
  have h3: "\<not> (False \<and> (None :: path option) = None)" by simp
  show ?thesis
    using h1 h2 C7_invalid_mode [OF h1 h2 h3, of "\<lparr>files = Map.empty, interrupt = None\<rparr>"
      "[''data'', ''ep'']" 3 9090 9087 empty_world]
    by (simp add: empty_world_def)
qed

text \<open>
  The claim as stated (every call with such a mode fails with the invalid-argument error)
  fails when \<^verbatim>\<open>save\<close> is true and no output directory is given: the assertion of lines 87 to
  90 comes first, and the error is the AssertionError.
\<close>

theorem C7_counterexample:
  "''bogus'' \<notin> set [''local'', ''distant''] \<and>
   visualize_dataset \<lparr>files = Map.empty, interrupt = None\<rparr> [''data'', ''ep''] 3 ''bogus'' 9090 9087
     True None empty_world = (Raised (AssertionError output_dir_message), empty_world) \<and>
   AssertionError output_dir_message \<noteq> ValueError ''bogus''"
  by (simp add: visualize_dataset_def)

subsection \<open>C8\<close>

text \<open>
  Claim C8 (missing output directory). Every call with \<^verbatim>\<open>save\<close> true and no output
  directory raises AssertionError with the message of lines 88 to 90, which names the
  output directory, whatever the other arguments are; the world is unchanged: the sink is
  not initialised and there is no effect at all.
\<close>

theorem C8_missing_output_dir:
  "visualize_dataset ev p n mode web_port ws_port True None w =
     (Raised (AssertionError output_dir_message), w) \<and>
   output_dir_message =
     ''Set an output directory where to write .rrd files with `--output-dir path/to/directory`.'' \<and>
   str_in ''output directory'' output_dir_message"
  by (simp add: visualize_dataset_def output_dir_message_def starts_with_def)

text \<open>The call on the example episode.\<close>

theorem C8_missing_output_dir_witness:
  "visualize_dataset \<lparr>files = Map.empty, interrupt = None\<rparr> [''data'', ''ep''] 3 ''local'' 9090 9087
     True None empty_world = (Raised (AssertionError output_dir_message), empty_world)"
  using C8_missing_output_dir [of "\<lparr>files = Map.empty, interrupt = None\<rparr>" "[''data'', ''ep'']" 3
      "''local''" 9090 9087 empty_world]
  by simp

subsection \<open>C9\<close>

text \<open>
  Claim C9 (local viewer). With mode \<^verbatim>\<open>local\<close> and \<^verbatim>\<open>save\<close> false the sink is initialised
  with the viewer spawned, both archives are streamed, and the call returns None with the
  world as streaming left it (or raises the error of streaming). For every call whatsoever,
  the viewers spawned by the call are exactly one when the mode is \<^verbatim>\<open>local\<close> and
  \<^verbatim>\<open>save\<close> is false, and none otherwise.
\<close>

theorem C9_local_viewer:
  "visualize_dataset ev p n ''local'' web_port ws_port False output_dir w =
     (case stream ev p n
        (emit (LoggingInfo ''Logging to Rerun'')
          (emit GcCollect
            (emit (RrInit (''episode_'' @ str_int n) True)
              (emit (LoggingInfo ''Starting Rerun'') w)))) of
        (Inl e, w') \<Rightarrow> (Raised e, w')
      | (Inr u, w') \<Rightarrow> (Returned None, w')) \<and>
   filter spawns_viewer
     (events (snd (visualize_dataset ev p n mode web_port ws_port save output_dir w))) =
     filter spawns_viewer (events w) @
       (if mode = ''local'' \<and> \<not> save then [RrInit (''episode_'' @ str_int n) True] else [])"
proof -
  have "visualize_dataset ev p n ''local'' web_port ws_port False output_dir w =
     (case stream ev p n
        (emit (LoggingInfo ''Logging to Rerun'')
          (emit GcCollect
            (emit (RrInit (''episode_'' @ str_int n) True)
              (emit (LoggingInfo ''Starting Rerun'') w)))) of
        (Inl e, w') \<Rightarrow> (Raised e, w')
      | (Inr u, w') \<Rightarrow> (Returned None, w'))"
    by (simp add: visualize_dataset_def finalize_def Let_def split: prod.splits sum.splits)
  with visualize_dataset_viewers show ?thesis by simp
qed

text \<open>
  The run on the example episode: None is returned, the sink is initialised as
  \<^verbatim>\<open>episode_3\<close> with the viewer, and ten scalar records are emitted with the timestamps
  0, 0, 0.1, 0.1, 0.2, 0.2, 0.3, 0.3, 0.4, 0.4.
\<close>

theorem C9_local_viewer_witness:
  "fst (visualize_dataset example_env [''data'', ''ep''] 3 ''local'' 9090 9087 False None empty_world) =
     Returned None \<and>
   events (snd (visualize_dataset example_env [''data'', ''ep''] 3 ''local'' 9090 9087 False None
     empty_world)) =
     [LoggingInfo ''Starting Rerun'', RrInit ''episode_3'' True, GcCollect,
      LoggingInfo ''Logging to Rerun'', LoggingInfo ''Loading actions.'',
      NpLoad [''data'', ''ep'', ''diffusion_spartan'', ''episode_3'', ''processed'', ''actions.npz''],
      NpLoad [''data'', ''ep'', ''diffusion_spartan'', ''episode_3'', ''processed'', ''observations.npz'']] \<and>
   map e_path (logged (snd (visualize_dataset example_env [''data'', ''ep''] 3 ''local'' 9090 9087 False
     None empty_world))) =
     [''action/0'', ''action/1'', ''action/0'', ''action/1'', ''action/0'', ''action/1'',
      ''action/0'', ''action/1'', ''action/0'', ''action/1''] \<and>
   map (\<lambda>e. e_times e ''timestamp'') (logged (snd (visualize_dataset example_env [''data'', ''ep''] 3
     ''local'' 9090 9087 False None empty_world))) =
     [Some (Secs 0), Some (Secs 0),
      Some (Secs (3602879701896397 / 36028797018963968)), Some (Secs (3602879701896397 / 36028797018963968)),
      Some (Secs (3602879701896397 / 18014398509481984)), Some (Secs (3602879701896397 / 18014398509481984)),
      Some (Secs (1351079888211149 / 4503599627370496)), Some (Secs (1351079888211149 / 4503599627370496)),
      Some (Secs (3602879701896397 / 9007199254740992)), Some (Secs (3602879701896397 / 9007199254740992))]"
proof -
  let ?w = "emit (LoggingInfo ''Logging to Rerun'')
          (emit GcCollect
            (emit (RrInit (''episode_'' @ str_int 3) True)
              (emit (LoggingInfo ''Starting Rerun'') empty_world)))"
  obtain r w' where st: "stream example_env [''data'', ''ep''] 3 ?w = (r, w')"
    by (cases "stream example_env [''data'', ''ep''] 3 ?w")
  from example_stream [of ?w] have r: "r = Inr ()"
    and ev: "events w' = events ?w @
     [LoggingInfo ''Loading actions.'',
      NpLoad [''data'', ''ep'', ''diffusion_spartan'', ''episode_3'', ''processed'', ''actions.npz''],
      NpLoad [''data'', ''ep'', ''diffusion_spartan'', ''episode_3'', ''processed'', ''observations.npz'']]"
    and pa: "map e_path (logged w') = map e_path (logged ?w) @
     [''action/0'', ''action/1'', ''action/0'', ''action/1'', ''action/0'', ''action/1'',
      ''action/0'', ''action/1'', ''action/0'', ''action/1'']"
    and ts: "map (\<lambda>e. e_times e ''timestamp'') (logged w') =
     map (\<lambda>e. e_times e ''timestamp'') (logged ?w) @
     [Some (Secs 0), Some (Secs 0),
      Some (Secs (3602879701896397 / 36028797018963968)), Some (Secs (3602879701896397 / 36028797018963968)),
      Some (Secs (3602879701896397 / 18014398509481984)), Some (Secs (3602879701896397 / 18014398509481984)),
      Some (Secs (1351079888211149 / 4503599627370496)), Some (Secs (1351079888211149 / 4503599627370496)),
      Some (Secs (3602879701896397 / 9007199254740992)), Some (Secs (3602879701896397 / 9007199254740992))]"
    unfolding st by simp_all
  have v: "visualize_dataset example_env [''data'', ''ep''] 3 ''local'' 9090 9087 False None empty_world =
      (Returned None, w')"
    using conjunct1 [OF C9_local_viewer [of example_env "[''data'', ''ep'']" 3 9090 9087 None empty_world]]
    unfolding st r by simp
  show ?thesis
    unfolding v using ev pa ts by (simp add: empty_world_def str_int_def)
qed

subsection \<open>C10\<close>

text \<open>
  Claim C10 (order of the dispatch). For every observation channel whose name contains both
  \<^verbatim>\<open>robot_\<close> and \<^verbatim>\<open>_depth\<close> the dispatch takes the robot branch, whatever the array is;
  a T by D array yields its T times D values as scalar records, and in a call that reaches
  the channel these records are in the log of the call. A channel emits no record
  whatever its array holds exactly when its name contains \<^verbatim>\<open>_depth\<close> and does not
  contain \<^verbatim>\<open>robot_\<close>.
\<close>

theorem C10_robot_before_depth:
  assumes "mode = ''local'' \<or> mode = ''distant''" and "\<not> (save \<and> output_dir = None)"
    and "files ev (processed_dir p n @ [''actions.npz'']) = Some actions"
    and "map_of actions ''actions'' = Some a" and "has_shape [Ta, Da] a"
    and "files ev (processed_dir p n @ [''observations.npz'']) = Some (pre @ (key, val) # post)"
    and "log_observations pre (observations_start p n mode web_port ws_port save actions w) =
           (Inr (), w1)"
    and "str_in ''robot_'' key" and "str_in ''_depth'' key" and "has_shape [T, D] val"
  shows "log_channel key any u =
      (case iter any of Inl e \<Rightarrow> (Inl e, u) | Inr frames \<Rightarrow> robot_loop key 0 frames u) \<and>
    fst (log_channel key val u) = Inr () \<and>
    logged (snd (log_channel key val u)) = logged u @ scalar_records key T D val (timelines u) \<and>
    length (scalar_records key T D val (timelines u)) = T * D \<and>
    visualize_dataset ev p n mode web_port ws_port save output_dir w =
      (case log_observations post (snd (log_channel key val w1)) of
         (Inl e, w') \<Rightarrow> (Raised e, w')
       | (Inr r, w') \<Rightarrow> finalize ev n mode save output_dir w') \<and>
    take (length (logged w1) + T * D)
        (logged (snd (visualize_dataset ev p n mode web_port ws_port save output_dir w))) =
      logged w1 @ scalar_records key T D val (timelines w1) \<and>
    ((\<forall>v x. logged (snd (log_channel other v x)) = logged x) \<longleftrightarrow>
       (str_in ''_depth'' other \<and> \<not> str_in ''robot_'' other))"
proof -
  have d: "log_channel key any u =
      (case iter any of Inl e \<Rightarrow> (Inl e, u) | Inr frames \<Rightarrow> robot_loop key 0 frames u)"
    using assms(8) by (simp add: log_channel_def)
  note c = robot_channel_records [OF assms(8,10)]
  note f = conjunct1 [OF c [of w1]]
  note v = visualize_reaches_channel [OF assms(1-7) f]
  have l: "length (logged (snd (log_channel key val w1))) = length (logged w1) + T * D"
    using c [of w1] by simp
  have t: "take (length (logged w1) + T * D)
        (logged (snd (visualize_dataset ev p n mode web_port ws_port save output_dir w))) =
      logged w1 @ scalar_records key T D val (timelines w1)"
    using conjunct2 [OF v] unfolding l using c [of w1] by simp
  from d c [of u] conjunct1 [OF v] t skipped_iff [of other] show ?thesis by simp
qed

text \<open>
  The run on the example episode: \<^verbatim>\<open>robot_arm_depth\<close> is reached with 15 records in the
  log and adds two scalar records; \<^verbatim>\<open>camera_front_depth\<close> is skipped whatever it holds,
  \<^verbatim>\<open>camera_front\<close> and \<^verbatim>\<open>robot_arm_depth\<close> are not.
\<close>

theorem C10_robot_before_depth_witness:
  "str_in ''robot_'' ''robot_arm_depth'' \<and> str_in ''_depth'' ''robot_arm_depth'' \<and>
   has_shape [1, 2] (Arr [Arr [Num 3, Num 4]]) \<and>
   map e_path (logged (snd (visualize_dataset example_episode [''data'', ''ep''] 3 ''local'' 9090 9087
       False None empty_world))) =
     [''action/0'', ''action/1'', ''action/0'', ''action/1'', ''action/0'', ''action/1'',
      ''action/0'', ''action/1'', ''action/0'', ''action/1'',
      ''camera_front'',
      ''robot_state/0'', ''robot_state/1'', ''robot_state/0'', ''robot_state/1'',
      ''robot_arm_depth/0'', ''robot_arm_depth/1''] \<and>
   map e_path (drop 15 (take (15 + 1 * 2) (logged (snd (visualize_dataset example_episode [''data'', ''ep''] 3 ''local'' 9090 9087
       False None empty_world))))) = [''robot_arm_depth/0'', ''robot_arm_depth/1''] \<and>
   map e_payload (drop 15 (take (15 + 1 * 2) (logged (snd (visualize_dataset example_episode [''data'', ''ep''] 3 ''local'' 9090 9087
       False None empty_world))))) = [RrScalar (Num 3), RrScalar (Num 4)] \<and>
   (\<forall>v x. logged (snd (log_channel ''camera_front_depth'' v x)) = logged x) \<and>
   \<not> (\<forall>v x. logged (snd (log_channel ''camera_front'' v x)) = logged x) \<and>
   \<not> (\<forall>v x. logged (snd (log_channel ''robot_arm_depth'' v x)) = logged x)"
proof -
  let ?w1 = "snd (log_observations
      [(''camera_front'', example_camera), (''robot_state'', example_robot)] (observations_start [''data'', ''ep''] 3 ''local'' 9090 9087 False
        [(''actions'', example_actions)] empty_world))"
  have h6: "files example_episode (processed_dir [''data'', ''ep''] 3 @ [''observations.npz'']) =
      Some ([(''camera_front'', example_camera), (''robot_state'', example_robot)] @
        (''robot_arm_depth'', Arr [Arr [Num 3, Num 4]]) #
        [(''camera_front_depth'', Arr [Arr [Arr [Num 1]]])])"
    by (simp add: example_files example_observations_def)
  note t = C10_robot_before_depth [OF example_call example_files(1) example_shapes(1,2) h6
      example_reached(3) example_names(5,6) example_shapes(5), where u = empty_world]
  from t [where other = "''camera_front_depth''" and any = "Num 0"]
  have "take (length (logged ?w1) + 1 * 2) (logged (snd (visualize_dataset example_episode [''data'', ''ep''] 3 ''local'' 9090 9087
       False None empty_world))) =
      logged ?w1 @ scalar_records ''robot_arm_depth'' 1 2 (Arr [Arr [Num 3, Num 4]]) (timelines ?w1)"
    by (elim conjE)
  then have d: "drop 15 (take (15 + 1 * 2) (logged (snd (visualize_dataset example_episode [''data'', ''ep''] 3 ''local'' 9090 9087
       False None empty_world)))) =
      scalar_records ''robot_arm_depth'' 1 2 (Arr [Arr [Num 3, Num 4]]) (timelines ?w1)"
    by (rule drop_of_take [OF _ example_before(3)])
  have r: "map e_path
      (scalar_records ''robot_arm_depth'' 1 2 (Arr [Arr [Num 3, Num 4]]) (timelines ?w1)) =
      [''robot_arm_depth/0'', ''robot_arm_depth/1''] \<and>
    map e_payload
      (scalar_records ''robot_arm_depth'' 1 2 (Arr [Arr [Num 3, Num 4]]) (timelines ?w1)) =
      [RrScalar (Num 3), RrScalar (Num 4)]"
    by (simp add: scalar_records_def)
  from t [where other = "''camera_front_depth''" and any = "Num 0"]
  have s1: "(\<forall>v x. logged (snd (log_channel ''camera_front_depth'' v x)) = logged x) =
      (str_in ''_depth'' ''camera_front_depth'' \<and> \<not> str_in ''robot_'' ''camera_front_depth'')"
    by (elim conjE)
  from t [where other = "''camera_front''" and any = "Num 0"]
  have s2: "(\<forall>v x. logged (snd (log_channel ''camera_front'' v x)) = logged x) =
      (str_in ''_depth'' ''camera_front'' \<and> \<not> str_in ''robot_'' ''camera_front'')"
    by (elim conjE)
  from t [where other = "''robot_arm_depth''" and any = "Num 0"]
  have s3: "(\<forall>v x. logged (snd (log_channel ''robot_arm_depth'' v x)) = logged x) =
      (str_in ''_depth'' ''robot_arm_depth'' \<and> \<not> str_in ''robot_'' ''robot_arm_depth'')"
    by (elim conjE)
  show ?thesis
    unfolding d s1 s2 s3 using r example_names example_shapes(5) example_run
    by simp
qed

end
